theory Spec2Isabelle
  imports Complex_Main
begin

section \<open>Data model (src/lib/types.ts)\<close>

text \<open>
  The string-literal unions of the TypeScript interfaces are datatypes; optional
  fields are options; a \<open>number\<close> that is read as input (a quantity, an entry of a
  descriptor) is the finite real it denotes, a \<open>number\<close> that the code computes
  is a \<open>number\<close> as defined below; a \<open>Date\<close> is a point on a discrete clock.
\<close>

datatype punch_type = PunchIn | PunchOut

datatype punch_method = Face | Pin

datatype condition = Good | Damaged | Missing

datatype form_status = Pending | Approved | Rejected

type_synonym date = nat

subsection \<open>JavaScript numbers\<close>

text \<open>
  A value that arithmetic produces is an IEEE-754 double: a finite value, an
  infinity or NaN (the sign of zero, which no comparison or sum below observes,
  is left out). \<open>ieee_round p emin emax\<close> rounds a real to the nearest value of
  the binary format with \<open>p\<close> significant bits and exponents from \<open>emin\<close> to \<open>emax\<close>,
  ties to the even significand, and to an infinity beyond the largest finite value.
\<close>

datatype number = Finite real | PosInfinity | NegInfinity | NaN

definition pow2 :: "int \<Rightarrow> real" where
  "pow2 k = (if 0 \<le> k then 2 ^ nat k else 1 / 2 ^ nat (- k))"

definition round_half_even :: "real \<Rightarrow> int" where
  "round_half_even x =
     (let f = \<lfloor>x\<rfloor>; r = x - of_int f
      in if r < 1 / 2 then f else if 1 / 2 < r then f + 1 else if even f then f else f + 1)"

definition ieee_round :: "nat \<Rightarrow> int \<Rightarrow> int \<Rightarrow> real \<Rightarrow> number" where
  "ieee_round p emin emax x =
     (if x = 0 then Finite 0
      else
        (let e = max emin \<lfloor>log 2 \<bar>x\<bar>\<rfloor>;
             ulp = pow2 (e - (int p - 1));
             y = of_int (round_half_even (x / ulp)) * ulp
         in if pow2 (emax + 1) \<le> \<bar>y\<bar> then (if 0 < x then PosInfinity else NegInfinity)
            else Finite y))"

text \<open>Double precision, the format of every \<open>number\<close>, and single precision.\<close>

definition binary64 :: "real \<Rightarrow> number" where
  "binary64 = ieee_round 53 (- 1022) 1023"

definition binary32 :: "real \<Rightarrow> number" where
  "binary32 = ieee_round 24 (- 126) 127"

text \<open>The operators \<open>+\<close> and \<open><\<close> on numbers.\<close>

fun js_add :: "number \<Rightarrow> number \<Rightarrow> number" where
  "js_add NaN b = NaN"
| "js_add a NaN = NaN"
| "js_add PosInfinity NegInfinity = NaN"
| "js_add NegInfinity PosInfinity = NaN"
| "js_add PosInfinity b = PosInfinity"
| "js_add NegInfinity b = NegInfinity"
| "js_add a PosInfinity = PosInfinity"
| "js_add a NegInfinity = NegInfinity"
| "js_add (Finite a) (Finite b) = binary64 (a + b)"

fun js_less :: "number \<Rightarrow> number \<Rightarrow> bool" where
  "js_less NaN b = False"
| "js_less a NaN = False"
| "js_less (Finite a) (Finite b) = (a < b)"
| "js_less (Finite a) PosInfinity = True"
| "js_less NegInfinity (Finite b) = True"
| "js_less NegInfinity PosInfinity = True"
| "js_less a b = False"

text \<open>\<open>new Float32Array(xs)\<close>: each entry rounded to single precision.\<close>

definition Float32Array :: "real list \<Rightarrow> number list" where
  "Float32Array xs = map binary32 xs"

definition finite_part :: "number \<Rightarrow> real" where
  "finite_part a = (case a of Finite x \<Rightarrow> x | _ \<Rightarrow> 0)"

subsection \<open>Documents and records\<close>

text \<open>
  Documents of the \<open>users\<close> and \<open>drivers\<close> collections are read back untyped: a
  document is its name in the collection together with whatever fields were stored.
\<close>

datatype jsval = JString string | JNumber real | JBool bool | JNumbers "real list"

type_synonym document_data = "string \<rightharpoonup> jsval"

record doc =
  doc_id :: string
  doc_data :: document_data

record Driver =
  drv_id :: string
  drv_name :: string
  drv_email :: string
  drv_driverId :: string
  drv_phone :: "string option"
  drv_pin :: "string option"
  drv_faceDescriptor :: "real list option"
  drv_createdAt :: date
  drv_isActive :: bool

record PunchLog =
  log_id :: string
  log_driverId :: string
  log_driverName :: string
  log_type :: punch_type
  log_timestamp :: date
  log_method :: punch_method
  log_location :: "string option"

record ReturnItem =
  item_itemName :: string
  item_quantity :: real
  item_condition :: condition
  item_notes :: "string option"

record ReturnForm =
  form_id :: string
  form_driverId :: string
  form_driverName :: string
  form_punchLogId :: string
  form_items :: "ReturnItem list"
  form_totalItems :: number
  form_submittedAt :: date
  form_status :: form_status

section \<open>The document store as seen by the wrappers of lib/firestore\<close>

text \<open>
  Every call into the hosted store either answers or throws. The answer of a read
  is computed from the collection; the answer of \<open>addDoc\<close> carries the identifier
  the store assigned to the new document.
\<close>

datatype io = Succeeds | Throws

datatype add_io = Stored string | AddThrows

record firestore =
  fs_users :: "doc list"
  fs_drivers :: "doc list"
  fs_punchLogs :: "PunchLog list"
  fs_returnForms :: "ReturnForm list"

text \<open>
  \<open>getDriverByDriverId\<close>: the query runs on the collection \<open>users\<close> with the two
  equality filters; an empty snapshot and a failed read both give \<open>null\<close>; otherwise
  the result is the object \<open>{ id: docs[0].id, ...docs[0].data() }\<close>, in which a stored
  field named \<open>id\<close> replaces the document name.
\<close>

definition getDriverByDriverId :: "io \<Rightarrow> firestore \<Rightarrow> string \<Rightarrow> document_data option" where
  "getDriverByDriverId reply db driverId =
     (case reply of
        Throws \<Rightarrow> None
      | Succeeds \<Rightarrow>
          (case filter (\<lambda>u. doc_data u ''driverId'' = Some (JString driverId)
                             \<and> doc_data u ''role'' = Some (JString ''driver'')) (fs_users db) of
             [] \<Rightarrow> None
           | d # _ \<Rightarrow> Some ([''id'' \<mapsto> JString (doc_id d)] ++ doc_data d)))"

text \<open>\<open>orderBy(field, "desc")\<close> on a collection held in memory as a list.\<close>

definition orderBy_desc :: "('a \<Rightarrow> nat) \<Rightarrow> 'a list \<Rightarrow> 'a list" where
  "orderBy_desc f xs = rev (sort_key f xs)"

text \<open>
  \<open>getLastPunchLog\<close>: the query \<open>where driverId == d, orderBy timestamp desc, limit 1\<close>;
  an empty snapshot and a failed read both give \<open>null\<close>.
\<close>

definition getLastPunchLog :: "io \<Rightarrow> PunchLog list \<Rightarrow> string \<Rightarrow> PunchLog option" where
  "getLastPunchLog reply logs d =
     (case reply of
        Throws \<Rightarrow> None
      | Succeeds \<Rightarrow>
          (case take 1 (orderBy_desc log_timestamp (filter (\<lambda>l. log_driverId l = d) logs)) of
             [] \<Rightarrow> None
           | doc # _ \<Rightarrow> Some doc))"

text \<open>
  \<open>createPunchLog\<close>: \<open>addDoc\<close> appends the row under the identifier chosen by the
  store and the wrapper returns \<open>{ id: docRef.id, ...logData }\<close>; a failure of the
  store is re-thrown (the result is \<open>None\<close>) and the collection is as it was. The
  argument has type \<open>Omit<PunchLog, "id">\<close>: its \<open>log_id\<close> is not read.
\<close>

definition createPunchLog :: "add_io \<Rightarrow> PunchLog \<Rightarrow> PunchLog list \<Rightarrow> (PunchLog \<times> PunchLog list) option" where
  "createPunchLog reply logData logs =
     (case reply of
        AddThrows \<Rightarrow> None
      | Stored newId \<Rightarrow>
          (let row = logData\<lparr>log_id := newId\<rparr> in Some (row, logs @ [row])))"

text \<open>\<open>createReturnForm\<close>, the same wrapper on the collection \<open>returnForms\<close>.\<close>

definition createReturnForm :: "add_io \<Rightarrow> ReturnForm \<Rightarrow> ReturnForm list \<Rightarrow> (ReturnForm \<times> ReturnForm list) option" where
  "createReturnForm reply formData forms =
     (case reply of
        AddThrows \<Rightarrow> None
      | Stored newId \<Rightarrow>
          (let row = formData\<lparr>form_id := newId\<rparr> in Some (row, forms @ [row])))"

text \<open>
  \<open>updateReturnForm(id, updates)\<close>: \<open>updates\<close> is a partial document, each field
  either given or left out; \<open>updateDoc\<close> writes the given fields of the document
  named \<open>id\<close> and throws when the store fails or holds no such document.
\<close>

record ReturnForm_updates =
  upd_driverId :: "string option"
  upd_driverName :: "string option"
  upd_punchLogId :: "string option"
  upd_items :: "ReturnItem list option"
  upd_totalItems :: "number option"
  upd_submittedAt :: "date option"
  upd_status :: "form_status option"

definition no_updates :: ReturnForm_updates where
  "no_updates = \<lparr>upd_driverId = None, upd_driverName = None, upd_punchLogId = None,
     upd_items = None, upd_totalItems = None, upd_submittedAt = None, upd_status = None\<rparr>"

definition merge_fields :: "ReturnForm_updates \<Rightarrow> ReturnForm \<Rightarrow> ReturnForm" where
  "merge_fields u f =
     \<lparr>form_id = form_id f,
      form_driverId = (case upd_driverId u of None \<Rightarrow> form_driverId f | Some v \<Rightarrow> v),
      form_driverName = (case upd_driverName u of None \<Rightarrow> form_driverName f | Some v \<Rightarrow> v),
      form_punchLogId = (case upd_punchLogId u of None \<Rightarrow> form_punchLogId f | Some v \<Rightarrow> v),
      form_items = (case upd_items u of None \<Rightarrow> form_items f | Some v \<Rightarrow> v),
      form_totalItems = (case upd_totalItems u of None \<Rightarrow> form_totalItems f | Some v \<Rightarrow> v),
      form_submittedAt = (case upd_submittedAt u of None \<Rightarrow> form_submittedAt f | Some v \<Rightarrow> v),
      form_status = (case upd_status u of None \<Rightarrow> form_status f | Some v \<Rightarrow> v)\<rparr>"

definition updateReturnForm :: "io \<Rightarrow> string \<Rightarrow> ReturnForm_updates \<Rightarrow> ReturnForm list \<Rightarrow> ReturnForm list option" where
  "updateReturnForm reply formId updates forms =
     (case reply of
        Throws \<Rightarrow> None
      | Succeeds \<Rightarrow>
          (if formId \<in> set (map form_id forms)
           then Some (map (\<lambda>f. if form_id f = formId then merge_fields updates f else f) forms)
           else None))"

section \<open>The driver's session (components/PunchInOut.tsx, DriverDashboard)\<close>

text \<open>
  The state of one browser session: the store it talks to, the state variables of
  \<open>PunchInOut\<close> (\<open>driver\<close>, \<open>pin\<close>, \<open>loading\<close>, \<open>lastPunch\<close>), those of
  \<open>DriverDashboard\<close> (\<open>currentPunchLog\<close>, \<open>showReturnForm\<close>), \<open>submittedForm\<close> of
  \<open>ReturnForm\<close>, and the alerts shown so far.
\<close>

record session =
  db :: firestore
  driver :: "Driver option"
  pin :: string
  loading :: bool
  lastPunch :: "PunchLog option"
  currentPunchLog :: "PunchLog option"
  showReturnForm :: bool
  submittedForm :: "ReturnForm option"
  alerts :: "string list"

text \<open>
  \<open>!lastPunch || lastPunch.type === 'out' ? 'in' : 'out'\<close>, the expression that
  \<open>handlePinPunch\<close>, \<open>handleFaceVerified\<close> and the render body all evaluate.
\<close>

definition nextPunchType :: "PunchLog option \<Rightarrow> punch_type" where
  "nextPunchType lp =
     (if lp = None \<or> log_type (the lp) = PunchOut then PunchIn else PunchOut)"

text \<open>\<open>loadLastPunch\<close>: nothing without a driver identifier; a \<open>null\<close> answer leaves the state.\<close>

definition loadLastPunch :: "string option \<Rightarrow> io \<Rightarrow> session \<Rightarrow> session" where
  "loadLastPunch userDriverId reply s =
     (case userDriverId of
        None \<Rightarrow> s
      | Some d \<Rightarrow>
          (if d = [] then s
           else (case getLastPunchLog reply (fs_punchLogs (db s)) d of
                   None \<Rightarrow> s
                 | Some lastPunchData \<Rightarrow> s\<lparr>lastPunch := Some lastPunchData\<rparr>)))"

text \<open>\<open>handlePunchSuccess\<close> and \<open>handleFormSubmitted\<close> of \<open>DriverDashboard\<close>.\<close>

definition handlePunchSuccess :: "PunchLog \<Rightarrow> session \<Rightarrow> session" where
  "handlePunchSuccess punchLog s =
     (if log_type punchLog = PunchIn
      then s\<lparr>currentPunchLog := Some punchLog, showReturnForm := True\<rparr>
      else s\<lparr>currentPunchLog := None, showReturnForm := False\<rparr>)"

definition handleFormSubmitted :: "session \<Rightarrow> session" where
  "handleFormSubmitted s = s\<lparr>showReturnForm := False, currentPunchLog := None\<rparr>"

text \<open>
  \<open>handlePunch(type, method)\<close> at clock time \<open>now\<close>: returns at once without a driver;
  otherwise builds the row, writes it, and on success records it as \<open>lastPunch\<close>,
  calls \<open>onPunchSuccess\<close> and clears the PIN field; a thrown write is caught and
  only logged. \<open>loading\<close> is reset on both paths.
\<close>

definition handlePunch :: "date \<Rightarrow> add_io \<Rightarrow> punch_type \<Rightarrow> punch_method \<Rightarrow> session \<Rightarrow> session" where
  "handlePunch now reply ty method s =
     (case driver s of
        None \<Rightarrow> s
      | Some d \<Rightarrow>
          (let punchLog = \<lparr>log_id = [], log_driverId = drv_driverId d, log_driverName = drv_name d,
                           log_type = ty, log_timestamp = now, log_method = method,
                           log_location = None\<rparr>
           in (case createPunchLog reply punchLog (fs_punchLogs (db s)) of
                 None \<Rightarrow> s\<lparr>loading := False\<rparr>
               | Some (newPunchLog, logs') \<Rightarrow>
                   (handlePunchSuccess newPunchLog
                      (s\<lparr>db := (db s)\<lparr>fs_punchLogs := logs'\<rparr>, lastPunch := Some newPunchLog\<rparr>))
                   \<lparr>pin := [], loading := False\<rparr>)))"

text \<open>
  JavaScript truthiness of \<open>driver?.pin\<close>: \<open>undefined\<close> (no driver, or no \<open>pin\<close> field)
  and the empty string are falsy.
\<close>

definition driver_pin :: "session \<Rightarrow> string option" where
  "driver_pin s = (case driver s of None \<Rightarrow> None | Some d \<Rightarrow> drv_pin d)"

definition truthy :: "string option \<Rightarrow> bool" where
  "truthy v = (case v of None \<Rightarrow> False | Some x \<Rightarrow> x \<noteq> [])"

text \<open>\<open>handlePinPunch\<close>: \<open>if (!driver?.pin || pin !== driver.pin) { alert; return }\<close>.\<close>

definition handlePinPunch :: "date \<Rightarrow> add_io \<Rightarrow> session \<Rightarrow> session" where
  "handlePinPunch now reply s =
     (if \<not> truthy (driver_pin s) \<or> Some (pin s) \<noteq> driver_pin s
      then s\<lparr>alerts := alerts s @ [''Invalid PIN'']\<rparr>
      else handlePunch now reply (nextPunchType (lastPunch s)) Pin s)"

text \<open>
  The button of the PIN tab, \<open>onClick={handlePinPunch}\<close> and
  \<open>disabled={loading || pin.length < 4}\<close>: the only caller of \<open>handlePinPunch\<close>.
\<close>

definition pinButtonDisabled :: "session \<Rightarrow> bool" where
  "pinButtonDisabled s = (loading s \<or> length (pin s) < 4)"

definition pinButtonClick :: "date \<Rightarrow> add_io \<Rightarrow> session \<Rightarrow> session" where
  "pinButtonClick now reply s = (if pinButtonDisabled s then s else handlePinPunch now reply s)"

definition handleFaceVerified :: "bool \<Rightarrow> date \<Rightarrow> add_io \<Rightarrow> session \<Rightarrow> session" where
  "handleFaceVerified verified now reply s =
     (if verified then handlePunch now reply (nextPunchType (lastPunch s)) Face s else s)"

section \<open>Face verification (components/FaceRecognition.tsx)\<close>

text \<open>
  Modelled from the spec: \<open>faceapi.euclideanDistance\<close>, a function of the face-api.js
  dependency whose code is not in the repository. It is the Euclidean distance
  between two vectors of one length, the square root of the running sum of
  squared differences, taken exactly; the first argument is the captured
  descriptor, the second the typed array built from the stored one. With a NaN
  entry the distance is NaN, with an infinite entry it is infinite; on vectors of
  different lengths the library throws (\<open>None\<close>).
\<close>

definition euclideanDistance :: "real list \<Rightarrow> number list \<Rightarrow> number option" where
  "euclideanDistance arr1 arr2 =
     (if length arr1 \<noteq> length arr2 then None
      else if NaN \<in> set arr2 then Some NaN
      else if PosInfinity \<in> set arr2 \<or> NegInfinity \<in> set arr2 then Some PosInfinity
      else Some (Finite (sqrt (foldl (\<lambda>res diff. res + diff ^ 2) 0
                   (map2 (\<lambda>val other. val - finite_part other) arr1 arr2)))))"

text \<open>What \<open>detectSingleFace(...).withFaceLandmarks().withFaceDescriptor()\<close> gave.\<close>

datatype detect_reply = DetectThrows | NoFace | Detection "real list"

datatype face_status = Idle | Detecting | Verified | Failed

text \<open>The calls made on the two callback props.\<close>

datatype face_event = FaceVerified bool | FaceEnrolled "real list"

record face_view =
  refsMounted :: bool
  isLoaded :: bool
  isDetecting :: bool
  status :: face_status

text \<open>
  \<open>detectFace\<close> with the props \<open>isEnrolling\<close> and \<open>driverFaceDescriptor\<close>: the new view
  state and the callbacks invoked. With a detection, not enrolling and no stored
  descriptor, neither branch of the inner \<open>if\<close> runs: no callback is made and the
  status stays at \<open>detecting\<close>. With a stored descriptor the distance is taken to
  \<open>new Float32Array(driverFaceDescriptor)\<close> and compared with the threshold; a throw
  of the library is caught like a failed detection. The distance being taken
  exactly, the threshold is the 0.4 that the literal writes: no double lies
  between it and the double that the literal denotes.
\<close>

definition detectFace :: "bool \<Rightarrow> real list option \<Rightarrow> detect_reply \<Rightarrow> face_view \<Rightarrow> face_view \<times> face_event list" where
  "detectFace isEnrolling driverFaceDescriptor reply v =
     (if \<not> refsMounted v \<or> \<not> isLoaded v then (v, [])
      else
        (case reply of
           DetectThrows \<Rightarrow> (v\<lparr>isDetecting := False, status := Failed\<rparr>, [FaceVerified False])
         | NoFace \<Rightarrow> (v\<lparr>isDetecting := False, status := Failed\<rparr>, [FaceVerified False])
         | Detection descriptor \<Rightarrow>
             (if isEnrolling
              then (v\<lparr>isDetecting := False, status := Verified\<rparr>, [FaceEnrolled descriptor])
              else
                (case driverFaceDescriptor of
                   None \<Rightarrow> (v\<lparr>isDetecting := False, status := Detecting\<rparr>, [])
                 | Some stored \<Rightarrow>
                     (case euclideanDistance descriptor (Float32Array stored) of
                        None \<Rightarrow> (v\<lparr>isDetecting := False, status := Failed\<rparr>, [FaceVerified False])
                      | Some distance \<Rightarrow>
                          (let isMatch = js_less distance (Finite 0.4)
                           in (v\<lparr>isDetecting := False, status := (if isMatch then Verified else Failed)\<rparr>,
                               [FaceVerified isMatch])))))))"

text \<open>
  The face tab of \<open>PunchInOut\<close>: \<open>FaceRecognition\<close> is rendered, once a driver is
  loaded, with \<open>onFaceVerified = handleFaceVerified\<close> and
  \<open>driverFaceDescriptor = driver.faceDescriptor\<close>, \<open>isEnrolling\<close> at its default
  \<open>false\<close>; pressing Verify runs \<open>detectFace\<close> and each \<open>onFaceVerified\<close> call reaches
  \<open>handleFaceVerified\<close>.
\<close>

fun deliver :: "date \<Rightarrow> add_io \<Rightarrow> face_event list \<Rightarrow> session \<Rightarrow> session" where
  "deliver now reply [] s = s"
| "deliver now reply (FaceVerified verified # es) s =
     deliver now reply es (handleFaceVerified verified now reply s)"
| "deliver now reply (FaceEnrolled descriptor # es) s = deliver now reply es s"

definition facePunchAttempt :: "detect_reply \<Rightarrow> face_view \<Rightarrow> date \<Rightarrow> add_io \<Rightarrow> session \<Rightarrow> face_view \<times> session" where
  "facePunchAttempt reply v now wr s =
     (case driver s of
        None \<Rightarrow> (v, s)
      | Some d \<Rightarrow>
          (let (v', events) = detectFace False (drv_faceDescriptor d) reply v
           in (v', deliver now wr events s)))"

section \<open>Return forms (components/ReturnForm.tsx)\<close>

text \<open>
  A form row before validation: the condition is whatever string the caller sent.
  The schema collects one issue per failed check, each with the index of its item.
\<close>

record raw_item =
  raw_itemName :: string
  raw_quantity :: real
  raw_condition :: string
  raw_notes :: "string option"

datatype issue = ItemsRequired | NameRequired nat | QuantityTooSmall nat | InvalidCondition nat

definition condition_enum :: "string \<Rightarrow> condition option" where
  "condition_enum c =
     (if c = ''good'' then Some Good
      else if c = ''damaged'' then Some Damaged
      else if c = ''missing'' then Some Missing
      else None)"

definition returnItemSchema_issues :: "nat \<Rightarrow> raw_item \<Rightarrow> issue list" where
  "returnItemSchema_issues i r =
     (if length (raw_itemName r) < 1 then [NameRequired i] else [])
     @ (if raw_quantity r < 1 then [QuantityTooSmall i] else [])
     @ (if condition_enum (raw_condition r) = None then [InvalidCondition i] else [])"

definition parsed_item :: "raw_item \<Rightarrow> ReturnItem" where
  "parsed_item r =
     \<lparr>item_itemName = raw_itemName r, item_quantity = raw_quantity r,
      item_condition = the (condition_enum (raw_condition r)), item_notes = raw_notes r\<rparr>"

definition returnFormSchema_issues :: "raw_item list \<Rightarrow> issue list" where
  "returnFormSchema_issues items =
     (if length items < 1 then [ItemsRequired] else [])
     @ concat (map2 returnItemSchema_issues [0 ..< length items] items)"

definition returnFormSchema :: "raw_item list \<Rightarrow> issue list + ReturnItem list" where
  "returnFormSchema items =
     (if returnFormSchema_issues items = [] then Inr (map parsed_item items)
      else Inl (returnFormSchema_issues items))"

text \<open>
  \<open>onSubmit(data)\<close> for the punch log the form was opened on: the row is built from
  the punch log and the items, \<open>totalItems\<close> by the \<open>reduce\<close> that adds the quantities
  one by one, from the left, to the accumulator started at 0, each addition in
  double precision; a successful write sets \<open>submittedForm\<close> and calls
  \<open>onFormSubmitted\<close>.
\<close>

definition onSubmit :: "PunchLog \<Rightarrow> date \<Rightarrow> add_io \<Rightarrow> ReturnItem list \<Rightarrow> session \<Rightarrow> session" where
  "onSubmit punchLog now reply items s =
     (let returnForm = \<lparr>form_id = [], form_driverId = log_driverId punchLog,
                         form_driverName = log_driverName punchLog, form_punchLogId = log_id punchLog,
                         form_items = items,
                         form_totalItems =
                           foldl (\<lambda>sum item. js_add sum (Finite (item_quantity item))) (Finite 0) items,
                         form_submittedAt = now, form_status = Pending\<rparr>
      in (case createReturnForm reply returnForm (fs_returnForms (db s)) of
            None \<Rightarrow> s
          | Some (newForm, forms') \<Rightarrow>
              handleFormSubmitted
                (s\<lparr>db := (db s)\<lparr>fs_returnForms := forms'\<rparr>, submittedForm := Some newForm\<rparr>)))"

text \<open>\<open>handleSubmit(onSubmit)\<close>: the resolver runs the schema first; issues stop the submission.\<close>

definition handleSubmit :: "PunchLog \<Rightarrow> date \<Rightarrow> add_io \<Rightarrow> raw_item list \<Rightarrow> session \<Rightarrow> issue list + session" where
  "handleSubmit punchLog now reply items s =
     (case returnFormSchema items of
        Inl issues \<Rightarrow> Inl issues
      | Inr parsed \<Rightarrow> Inr (onSubmit punchLog now reply parsed s))"

section \<open>Admin decisions (components/AdminDashboard)\<close>

text \<open>The parameter type \<open>'approved' | 'rejected'\<close> of \<open>updateFormStatus\<close>.\<close>

datatype decision = approved | rejected

fun decided :: "decision \<Rightarrow> form_status" where
  "decided approved = Approved"
| "decided rejected = Rejected"

text \<open>
  \<open>updateFormStatus(formId, status)\<close> on the store and on the dashboard's own list
  \<open>returnForms\<close>: the store is sent \<open>{ status }\<close> alone, then the local list is mapped;
  a thrown update is caught and leaves both as they were.
\<close>

definition updateFormStatus :: "io \<Rightarrow> string \<Rightarrow> decision \<Rightarrow> firestore \<times> ReturnForm list \<Rightarrow> firestore \<times> ReturnForm list" where
  "updateFormStatus reply formId st a =
     (case updateReturnForm reply formId (no_updates\<lparr>upd_status := Some (decided st)\<rparr>)
             (fs_returnForms (fst a)) of
        None \<Rightarrow> a
      | Some forms' \<Rightarrow>
          ((fst a)\<lparr>fs_returnForms := forms'\<rparr>,
           map (\<lambda>form. if form_id form = formId then form\<lparr>form_status := decided st\<rparr> else form) (snd a)))"

section \<open>Sample data\<close>

definition ann :: Driver where
  "ann = \<lparr>drv_id = ''u1'', drv_name = ''Ann'', drv_email = ''ann@example.org'',
     drv_driverId = ''D1'', drv_phone = None, drv_pin = Some ''4321'',
     drv_faceDescriptor = Some [0, 0], drv_createdAt = 0, drv_isActive = True\<rparr>"

definition entry :: "string \<Rightarrow> string \<Rightarrow> punch_type \<Rightarrow> date \<Rightarrow> PunchLog" where
  "entry i d ty t = \<lparr>log_id = i, log_driverId = d, log_driverName = ''Ann'', log_type = ty,
     log_timestamp = t, log_method = Pin, log_location = None\<rparr>"

definition empty_db :: firestore where
  "empty_db = \<lparr>fs_users = [], fs_drivers = [], fs_punchLogs = [], fs_returnForms = []\<rparr>"

definition session_of :: "Driver \<Rightarrow> string \<Rightarrow> PunchLog option \<Rightarrow> session" where
  "session_of d entered lp = \<lparr>db = empty_db, driver = Some d, pin = entered, loading = False,
     lastPunch = lp, currentPunchLog = None, showReturnForm = False, submittedForm = None,
     alerts = []\<rparr>"

definition item_of :: "string \<Rightarrow> real \<Rightarrow> ReturnItem" where
  "item_of name q = \<lparr>item_itemName = name, item_quantity = q, item_condition = Good,
     item_notes = None\<rparr>"

definition crate :: raw_item where
  "crate = \<lparr>raw_itemName = ''crate'', raw_quantity = 2, raw_condition = ''good'', raw_notes = None\<rparr>"

definition signup_db :: firestore where
  "signup_db =
     \<lparr>fs_users = [\<lparr>doc_id = ''u1'',
                    doc_data = [''id'' \<mapsto> JString ''uid1'', ''email'' \<mapsto> JString ''ann@example.org'',
                                ''role'' \<mapsto> JString ''driver'', ''driverId'' \<mapsto> JString ''D1'']\<rparr>],
      fs_drivers = [\<lparr>doc_id = ''d1'',
                      doc_data = [''name'' \<mapsto> JString ''Ann'', ''email'' \<mapsto> JString ''ann@example.org'',
                                  ''driverId'' \<mapsto> JString ''D1'', ''pin'' \<mapsto> JString ''4321'',
                                  ''faceDescriptor'' \<mapsto> JNumbers [0, 0], ''isActive'' \<mapsto> JBool True]\<rparr>],
      fs_punchLogs = [], fs_returnForms = []\<rparr>"

definition decided_form :: ReturnForm where
  "decided_form = \<lparr>form_id = ''f1'', form_driverId = ''D1'', form_driverName = ''Ann'',
     form_punchLogId = ''p1'',
     form_items = [\<lparr>item_itemName = ''crate'', item_quantity = 2, item_condition = Good,
                     item_notes = None\<rparr>],
     form_totalItems = Finite 2, form_submittedAt = 12, form_status = Approved\<rparr>"

section \<open>Rounding\<close>

lemma pow2_powr: "pow2 k = 2 powr (of_int k)"
proof (cases "0 \<le> k")
  case True
  then show ?thesis by (simp add: pow2_def powr_realpow [symmetric])
next
  case False
  then have "2 powr (of_int k) = 1 / (2::real) powr (of_int (- k))"
    by (simp add: powr_minus_divide)
  also have "\<dots> = 1 / 2 ^ nat (- k)"
    using False by (simp add: powr_realpow [symmetric])
  finally show ?thesis using False by (simp add: pow2_def)
qed

lemma pow2_pos: "0 < pow2 k"
  by (simp add: pow2_powr)

lemma pow2_mono: "a \<le> b \<Longrightarrow> pow2 a \<le> pow2 b"
  by (simp add: pow2_powr)

lemma pow2_add: "pow2 (a + b) = pow2 a * pow2 b"
  by (simp add: pow2_powr powr_add)

lemma floor_log2_eq:
  assumes "x \<noteq> 0" and "pow2 e \<le> \<bar>x\<bar>" and "\<bar>x\<bar> < pow2 (e + 1)"
  shows "\<lfloor>log 2 \<bar>x\<bar>\<rfloor> = e"
proof -
  have "0 < \<bar>x\<bar>" using assms(1) by simp
  moreover have "2 powr (of_int e) \<le> \<bar>x\<bar> \<and> \<bar>x\<bar> < 2 powr (of_int e + 1)"
    using assms(2,3) by (simp add: pow2_powr)
  ultimately show ?thesis
    using floor_log_eq_powr_iff [of "\<bar>x\<bar>" 2 e] by simp
qed

lemma floor_log2_bounds:
  assumes "x \<noteq> 0"
  shows "pow2 \<lfloor>log 2 \<bar>x\<bar>\<rfloor> \<le> \<bar>x\<bar> \<and> \<bar>x\<bar> < pow2 (\<lfloor>log 2 \<bar>x\<bar>\<rfloor> + 1)"
proof -
  have "0 < \<bar>x\<bar>" using assms by simp
  then show ?thesis
    using floor_log_eq_powr_iff [of "\<bar>x\<bar>" 2 "\<lfloor>log 2 \<bar>x\<bar>\<rfloor>"] by (simp add: pow2_powr)
qed

lemma ieee_round_at:
  assumes "x \<noteq> 0" and "pow2 e \<le> \<bar>x\<bar>" and "\<bar>x\<bar> < pow2 (e + 1)"
  shows "ieee_round p emin emax x =
     (if pow2 (emax + 1) \<le> \<bar>of_int (round_half_even (x / pow2 (max emin e - (int p - 1)))) * pow2 (max emin e - (int p - 1))\<bar>
      then (if 0 < x then PosInfinity else NegInfinity)
      else Finite (of_int (round_half_even (x / pow2 (max emin e - (int p - 1)))) * pow2 (max emin e - (int p - 1))))"
  using assms(1) floor_log2_eq [OF assms] by (simp add: ieee_round_def Let_def)

lemma round_half_even_int: "round_half_even (of_int k) = k"
  by (simp add: round_half_even_def)

lemma binary64_int:
  assumes "\<bar>n\<bar> \<le> 2 ^ 53"
  shows "binary64 (of_int n) = Finite (of_int n)"
proof (cases "n = 0")
  case True
  then show ?thesis by (simp add: binary64_def ieee_round_def)
next
  case False
  define x :: real where "x = of_int n"
  define e where "e = \<lfloor>log 2 \<bar>x\<bar>\<rfloor>"
  have x0: "x \<noteq> 0" using False by (simp add: x_def)
  have absx: "\<bar>x\<bar> = of_int \<bar>n\<bar>" by (simp add: x_def)
  have lo: "pow2 e \<le> \<bar>x\<bar>" and hi: "\<bar>x\<bar> < pow2 (e + 1)"
    using floor_log2_bounds [OF x0] by (simp_all add: e_def)
  have one: "1 \<le> \<bar>x\<bar>" using False unfolding absx by (simp add: int_one_le_iff_zero_less)
  have top: "\<bar>x\<bar> \<le> 2 ^ 53" using assms unfolding absx by (metis of_int_le_iff of_int_numeral of_int_power)
  have e0: "0 \<le> e"
  proof (rule ccontr)
    assume "\<not> 0 \<le> e"
    then have "pow2 (e + 1) \<le> pow2 0" by (intro pow2_mono) simp
    with hi one show False by (simp add: pow2_def)
  qed
  have e53: "e \<le> 53"
  proof (rule ccontr)
    assume "\<not> e \<le> 53"
    then have "pow2 54 \<le> pow2 e" by (intro pow2_mono) simp
    with lo top show False by (simp add: pow2_def)
  qed
  have y: "of_int (round_half_even (x / pow2 (e - 52))) * pow2 (e - 52) = x"
  proof (cases "e \<le> 52")
    case True
    define k where "k = nat (52 - e)"
    have ulp: "pow2 (e - 52) = 1 / 2 ^ k"
    proof (cases "e = 52")
      case True
      then show ?thesis by (simp add: pow2_def k_def)
    next
      case False
      with \<open>e \<le> 52\<close> show ?thesis by (simp add: pow2_def k_def)
    qed
    have "x / pow2 (e - 52) = of_int (n * 2 ^ k)" by (simp add: ulp x_def)
    then have "round_half_even (x / pow2 (e - 52)) = n * 2 ^ k"
      using round_half_even_int by metis
    then show ?thesis by (simp add: ulp x_def)
  next
    case False
    with e53 have e: "e = 53" by simp
    have "\<bar>x\<bar> = 2 ^ 53" using lo top by (simp add: e pow2_def)
    then have "\<bar>n\<bar> = 2 ^ 53" unfolding absx by (metis of_int_eq_iff of_int_numeral of_int_power)
    then have "even n" by (metis even_abs_add_iff even_add even_numeral even_power zero_less_numeral)
    then obtain m where m: "n = 2 * m" by (auto elim: evenE)
    have "x / pow2 (e - 52) = of_int m" by (simp add: e pow2_def x_def m)
    then have "round_half_even (x / pow2 (e - 52)) = m"
      using round_half_even_int by metis
    then show ?thesis by (simp add: e pow2_def x_def m)
  qed
  have "\<not> pow2 (1023 + 1) \<le> \<bar>x\<bar>" using top by (simp add: pow2_def)
  with y x0 e0 show ?thesis
    unfolding binary64_def ieee_round_def x_def [symmetric]
    by (simp add: Let_def e_def [symmetric] max_def)
qed

section \<open>The ledger query\<close>

lemma sorted_le_last:
  "sorted (map f ys) \<Longrightarrow> x \<in> set ys \<Longrightarrow> f x \<le> f (last ys)"
proof (induction ys)
  case Nil
  then show ?case by simp
next
  case (Cons y ys)
  then show ?case by (cases "ys = []") auto
qed

lemma orderBy_desc_head:
  assumes "p \<in> set xs" and "\<forall>q\<in>set xs. q \<noteq> p \<longrightarrow> f q < f p"
  shows "take 1 (orderBy_desc f xs) = [p]"
proof -
  let ?ys = "sort_key f xs"
  have ne: "?ys \<noteq> []" using assms(1) by (metis empty_iff list.set(1) set_sort)
  have mem: "last ?ys \<in> set xs" using ne by (metis last_in_set set_sort)
  have "sorted (map f ?ys)" by (rule sorted_sort_key)
  moreover have "p \<in> set ?ys" using assms(1) by simp
  ultimately have "f p \<le> f (last ?ys)"
    using sorted_le_last [of f ?ys p] by blast
  with assms(2) mem have "last ?ys = p" by force
  moreover have "take 1 (rev ?ys) = [last ?ys]"
  proof (cases "rev ?ys")
    case Nil
    with ne show ?thesis by simp
  next
    case (Cons z zs)
    then have "last ?ys = z" by (metis hd_rev list.sel(1))
    with Cons show ?thesis by simp
  qed
  ultimately show ?thesis by (simp add: orderBy_desc_def)
qed

lemma getLastPunchLog_latest:
  assumes "p \<in> set logs" and "log_driverId p = d"
    and "\<forall>q\<in>set logs. log_driverId q = d \<and> q \<noteq> p \<longrightarrow> log_timestamp q < log_timestamp p"
  shows "getLastPunchLog Succeeds logs d = Some p"
proof -
  have "take 1 (orderBy_desc log_timestamp (filter (\<lambda>l. log_driverId l = d) logs)) = [p]"
    by (rule orderBy_desc_head) (use assms in auto)
  then show ?thesis by (simp add: getLastPunchLog_def)
qed

lemma getLastPunchLog_none:
  assumes "\<forall>q\<in>set logs. log_driverId q \<noteq> d"
  shows "getLastPunchLog reply logs d = None"
proof -
  have "filter (\<lambda>l. log_driverId l = d) logs = []" using assms by (simp add: filter_empty_conv)
  then show ?thesis by (simp add: getLastPunchLog_def orderBy_desc_def split: io.splits)
qed

text \<open>
  Claim C1. The next punch action is \<open>in\<close> when there is no last entry or the last
  entry is an \<open>out\<close>, and \<open>out\<close> when the last entry is an \<open>in\<close>. On a ledger of any
  length and any order of directions, the action derived through \<open>getLastPunchLog\<close>
  is decided by the driver's entry with the greatest timestamp alone, and it is
  \<open>in\<close> for a driver with no entry.
\<close>

theorem nextPunchType_latest_entry_only:
  "nextPunchType None = PunchIn
   \<and> (log_type p = PunchOut \<longrightarrow> nextPunchType (Some p) = PunchIn)
   \<and> (log_type p = PunchIn \<longrightarrow> nextPunchType (Some p) = PunchOut)
   \<and> ((\<forall>q\<in>set logs. log_driverId q \<noteq> d) \<longrightarrow>
        nextPunchType (getLastPunchLog Succeeds logs d) = PunchIn)
   \<and> (p \<in> set logs \<and> log_driverId p = d
        \<and> (\<forall>q\<in>set logs. log_driverId q = d \<and> q \<noteq> p \<longrightarrow> log_timestamp q < log_timestamp p) \<longrightarrow>
        nextPunchType (getLastPunchLog Succeeds logs d)
          = (if log_type p = PunchOut then PunchIn else PunchOut))"
proof -
  have none: "nextPunchType None = PunchIn" by (simp add: nextPunchType_def)
  have out: "log_type p = PunchOut \<longrightarrow> nextPunchType (Some p) = PunchIn"
    by (simp add: nextPunchType_def)
  have inn: "log_type p = PunchIn \<longrightarrow> nextPunchType (Some p) = PunchOut"
    by (simp add: nextPunchType_def)
  have nohist: "(\<forall>q\<in>set logs. log_driverId q \<noteq> d) \<longrightarrow>
        nextPunchType (getLastPunchLog Succeeds logs d) = PunchIn"
    using getLastPunchLog_none [of logs d Succeeds] none by auto
  have hist: "p \<in> set logs \<and> log_driverId p = d
        \<and> (\<forall>q\<in>set logs. log_driverId q = d \<and> q \<noteq> p \<longrightarrow> log_timestamp q < log_timestamp p) \<longrightarrow>
        nextPunchType (getLastPunchLog Succeeds logs d)
          = (if log_type p = PunchOut then PunchIn else PunchOut)"
  proof
    assume h: "p \<in> set logs \<and> log_driverId p = d
        \<and> (\<forall>q\<in>set logs. log_driverId q = d \<and> q \<noteq> p \<longrightarrow> log_timestamp q < log_timestamp p)"
    then have "getLastPunchLog Succeeds logs d = Some p"
      using getLastPunchLog_latest [of p logs d] by blast
    then show "nextPunchType (getLastPunchLog Succeeds logs d)
          = (if log_type p = PunchOut then PunchIn else PunchOut)"
      by (simp add: nextPunchType_def)
  qed
  from none out inn nohist hist show ?thesis by blast
qed

theorem nextPunchType_latest_entry_only_witness:
  "nextPunchType (getLastPunchLog Succeeds
      [entry ''a'' ''D1'' PunchIn 5, entry ''b'' ''D1'' PunchIn 7, entry ''c'' ''D2'' PunchIn 9,
       entry ''d'' ''D1'' PunchOut 8, entry ''e'' ''D1'' PunchIn 6] ''D1'') = PunchIn
   \<and> nextPunchType (getLastPunchLog Succeeds
      [entry ''a'' ''D1'' PunchIn 5, entry ''b'' ''D1'' PunchIn 7, entry ''c'' ''D2'' PunchIn 9,
       entry ''d'' ''D1'' PunchOut 8, entry ''e'' ''D1'' PunchIn 6] ''D3'') = PunchIn"
  using nextPunchType_latest_entry_only [of "entry ''d'' ''D1'' PunchOut 8"
      "[entry ''a'' ''D1'' PunchIn 5, entry ''b'' ''D1'' PunchIn 7, entry ''c'' ''D2'' PunchIn 9,
       entry ''d'' ''D1'' PunchOut 8, entry ''e'' ''D1'' PunchIn 6]" "''D1''"]
    nextPunchType_latest_entry_only [of "entry ''d'' ''D1'' PunchOut 8"
      "[entry ''a'' ''D1'' PunchIn 5, entry ''b'' ''D1'' PunchIn 7, entry ''c'' ''D2'' PunchIn 9,
       entry ''d'' ''D1'' PunchOut 8, entry ''e'' ''D1'' PunchIn 6]" "''D3''"]
  by (simp add: entry_def)

section \<open>Punching\<close>

lemma handlePunch_stored:
  "driver s = Some d \<Longrightarrow>
   fs_punchLogs (db (handlePunch now (Stored i) ty m s))
     = fs_punchLogs (db s) @ [\<lparr>log_id = i, log_driverId = drv_driverId d, log_driverName = drv_name d,
          log_type = ty, log_timestamp = now, log_method = m, log_location = None\<rparr>]"
  by (simp add: handlePunch_def createPunchLog_def handlePunchSuccess_def Let_def)

lemma handlePunch_throws:
  "fs_punchLogs (db (handlePunch now AddThrows ty m s)) = fs_punchLogs (db s)"
  by (simp add: handlePunch_def createPunchLog_def split: option.splits)

lemma handlePinPunch_rejects:
  "\<not> (truthy (driver_pin s) \<and> driver_pin s = Some (pin s)) \<Longrightarrow>
   handlePinPunch now reply s = s\<lparr>alerts := alerts s @ [''Invalid PIN'']\<rparr>"
  by (auto simp add: handlePinPunch_def)

text \<open>
  Claim C7. \<open>handlePinPunch\<close> runs only through the button, which is disabled while
  a punch is loading or the entered PIN has fewer than four characters. On every
  such attempt the punch is authorized exactly when the entered PIN equals the
  driver's stored PIN. When it does and the store takes the write, exactly one row
  is appended to the ledger, with method \<open>pin\<close>, the derived direction and the
  driver's identifier and name, and no alert is raised (when the store refuses the
  write the ledger is unchanged). When it does not, the attempt is rejected with
  the alert and the ledger is unchanged, whatever the store would have answered.
\<close>

theorem pin_punch_iff_pin_equal:
  "\<not> pinButtonDisabled s \<longrightarrow>
     pinButtonClick now reply s = handlePinPunch now reply s
     \<and> (driver_pin s = Some (pin s) \<longrightarrow>
          (\<exists>d. driver s = Some d
             \<and> fs_punchLogs (db (handlePinPunch now (Stored i) s))
                 = fs_punchLogs (db s) @ [\<lparr>log_id = i, log_driverId = drv_driverId d,
                     log_driverName = drv_name d, log_type = nextPunchType (lastPunch s),
                     log_timestamp = now, log_method = Pin, log_location = None\<rparr>])
          \<and> fs_punchLogs (db (handlePinPunch now AddThrows s)) = fs_punchLogs (db s)
          \<and> alerts (handlePinPunch now reply s) = alerts s)
     \<and> (driver_pin s \<noteq> Some (pin s) \<longrightarrow>
          fs_punchLogs (db (handlePinPunch now reply s)) = fs_punchLogs (db s)
          \<and> alerts (handlePinPunch now reply s) = alerts s @ [''Invalid PIN''])"
proof (intro impI)
  assume en: "\<not> pinButtonDisabled s"
  then have nonempty: "pin s \<noteq> []" by (auto simp add: pinButtonDisabled_def)
  have click: "pinButtonClick now reply s = handlePinPunch now reply s"
    using en by (simp add: pinButtonClick_def)
  have equal: "driver_pin s = Some (pin s) \<longrightarrow>
          (\<exists>d. driver s = Some d
             \<and> fs_punchLogs (db (handlePinPunch now (Stored i) s))
                 = fs_punchLogs (db s) @ [\<lparr>log_id = i, log_driverId = drv_driverId d,
                     log_driverName = drv_name d, log_type = nextPunchType (lastPunch s),
                     log_timestamp = now, log_method = Pin, log_location = None\<rparr>])
          \<and> fs_punchLogs (db (handlePinPunch now AddThrows s)) = fs_punchLogs (db s)
          \<and> alerts (handlePinPunch now reply s) = alerts s"
  proof
    assume eq: "driver_pin s = Some (pin s)"
    then have tr: "truthy (driver_pin s)" using nonempty by (simp add: truthy_def)
    from eq obtain d where d: "driver s = Some d"
      by (cases "driver s") (simp_all add: driver_pin_def)
    have run: "handlePinPunch now r s = handlePunch now r (nextPunchType (lastPunch s)) Pin s" for r
      unfolding handlePinPunch_def using tr eq by auto
    have "alerts (handlePunch now reply (nextPunchType (lastPunch s)) Pin s) = alerts s"
      by (simp add: handlePunch_def createPunchLog_def handlePunchSuccess_def Let_def d
          split: add_io.splits)
    moreover have "fs_punchLogs (db (handlePinPunch now (Stored i) s))
             = fs_punchLogs (db s) @ [\<lparr>log_id = i, log_driverId = drv_driverId d,
                 log_driverName = drv_name d, log_type = nextPunchType (lastPunch s),
                 log_timestamp = now, log_method = Pin, log_location = None\<rparr>]"
      unfolding run using d by (rule handlePunch_stored)
    moreover have "fs_punchLogs (db (handlePinPunch now AddThrows s)) = fs_punchLogs (db s)"
      unfolding run by (rule handlePunch_throws)
    ultimately show "(\<exists>d. driver s = Some d
             \<and> fs_punchLogs (db (handlePinPunch now (Stored i) s))
                 = fs_punchLogs (db s) @ [\<lparr>log_id = i, log_driverId = drv_driverId d,
                     log_driverName = drv_name d, log_type = nextPunchType (lastPunch s),
                     log_timestamp = now, log_method = Pin, log_location = None\<rparr>])
          \<and> fs_punchLogs (db (handlePinPunch now AddThrows s)) = fs_punchLogs (db s)
          \<and> alerts (handlePinPunch now reply s) = alerts s"
      using d unfolding run by blast
  qed
  have differ: "driver_pin s \<noteq> Some (pin s) \<longrightarrow>
          fs_punchLogs (db (handlePinPunch now reply s)) = fs_punchLogs (db s)
          \<and> alerts (handlePinPunch now reply s) = alerts s @ [''Invalid PIN'']"
    using handlePinPunch_rejects [of s now reply] by simp
  from click equal differ
  show "pinButtonClick now reply s = handlePinPunch now reply s
     \<and> (driver_pin s = Some (pin s) \<longrightarrow>
          (\<exists>d. driver s = Some d
             \<and> fs_punchLogs (db (handlePinPunch now (Stored i) s))
                 = fs_punchLogs (db s) @ [\<lparr>log_id = i, log_driverId = drv_driverId d,
                     log_driverName = drv_name d, log_type = nextPunchType (lastPunch s),
                     log_timestamp = now, log_method = Pin, log_location = None\<rparr>])
          \<and> fs_punchLogs (db (handlePinPunch now AddThrows s)) = fs_punchLogs (db s)
          \<and> alerts (handlePinPunch now reply s) = alerts s)
     \<and> (driver_pin s \<noteq> Some (pin s) \<longrightarrow>
          fs_punchLogs (db (handlePinPunch now reply s)) = fs_punchLogs (db s)
          \<and> alerts (handlePinPunch now reply s) = alerts s @ [''Invalid PIN''])"
    by blast
qed

theorem pin_punch_iff_pin_equal_witness:
  "fs_punchLogs (db (pinButtonClick 10 (Stored ''p1'') (session_of ann ''4321'' None)))
     = [\<lparr>log_id = ''p1'', log_driverId = ''D1'', log_driverName = ''Ann'', log_type = PunchIn,
         log_timestamp = 10, log_method = Pin, log_location = None\<rparr>]
   \<and> fs_punchLogs (db (pinButtonClick 10 (Stored ''p1'') (session_of ann ''1234'' None))) = []
   \<and> alerts (pinButtonClick 10 (Stored ''p1'') (session_of ann ''1234'' None)) = [''Invalid PIN'']"
  using pin_punch_iff_pin_equal [of "session_of ann ''4321'' None" 10 "Stored ''p1''" "''p1''"]
    pin_punch_iff_pin_equal [of "session_of ann ''1234'' None" 10 "Stored ''p1''" "''p1''"]
  by (simp add: session_of_def ann_def empty_db_def driver_pin_def pinButtonDisabled_def
      nextPunchType_def)

text \<open>
  Claim C10. With no driver loaded, no stored PIN, or the empty string as stored
  PIN, \<open>handlePinPunch\<close> rejects whatever PIN is entered, the empty one included:
  the session only gains the alert and the ledger is unchanged.
\<close>

theorem no_pin_no_punch:
  "driver_pin s = None \<or> driver_pin s = Some [] \<Longrightarrow>
   fs_punchLogs (db (handlePinPunch now reply s)) = fs_punchLogs (db s)
   \<and> handlePinPunch now reply s = s\<lparr>alerts := alerts s @ [''Invalid PIN'']\<rparr>"
  by (auto simp add: handlePinPunch_def truthy_def)

theorem no_pin_no_punch_witness:
  "fs_punchLogs (db (handlePinPunch 10 (Stored ''p1'') (session_of (ann\<lparr>drv_pin := None\<rparr>) [] None))) = []
   \<and> fs_punchLogs (db (handlePinPunch 10 (Stored ''p1'') (session_of (ann\<lparr>drv_pin := Some []\<rparr>) ''0000'' None))) = []"
  using no_pin_no_punch [of "session_of (ann\<lparr>drv_pin := None\<rparr>) [] None" 10 "Stored ''p1''"]
    no_pin_no_punch [of "session_of (ann\<lparr>drv_pin := Some []\<rparr>) ''0000'' None" 10 "Stored ''p1''"]
  by (simp add: session_of_def ann_def empty_db_def driver_pin_def)

text \<open>
  Claim C8. \<open>handlePunchSuccess\<close> shows the return form exactly for a punch of
  direction \<open>in\<close>, tied to that punch log, and clears form and punch log for an
  \<open>out\<close>; so after a punch that the store recorded, the form is open exactly when
  the direction was \<open>in\<close>, on the row just appended.
\<close>

theorem return_form_opens_on_punch_in:
  "(showReturnForm (handlePunchSuccess p s) \<longleftrightarrow> log_type p = PunchIn)
   \<and> currentPunchLog (handlePunchSuccess p s) = (if log_type p = PunchIn then Some p else None)
   \<and> (driver s = Some d \<longrightarrow>
        (showReturnForm (handlePunch now (Stored i) ty m s) \<longleftrightarrow> ty = PunchIn)
        \<and> currentPunchLog (handlePunch now (Stored i) ty m s)
            = (if ty = PunchIn then Some (last (fs_punchLogs (db (handlePunch now (Stored i) ty m s))))
               else None))"
  by (simp add: handlePunchSuccess_def handlePunch_def createPunchLog_def Let_def)

theorem return_form_opens_on_punch_in_witness:
  "showReturnForm (handlePinPunch 10 (Stored ''p1'') (session_of ann ''4321'' None))
   \<and> \<not> showReturnForm (handlePunch 11 (Stored ''p2'') PunchOut Pin
          ((session_of ann ''4321'' (Some (entry ''p1'' ''D1'' PunchIn 10)))
             \<lparr>currentPunchLog := Some (entry ''p1'' ''D1'' PunchIn 10), showReturnForm := True\<rparr>))
   \<and> currentPunchLog (handlePunch 11 (Stored ''p2'') PunchOut Pin
          ((session_of ann ''4321'' (Some (entry ''p1'' ''D1'' PunchIn 10)))
             \<lparr>currentPunchLog := Some (entry ''p1'' ''D1'' PunchIn 10), showReturnForm := True\<rparr>)) = None"
  using return_form_opens_on_punch_in [of "entry ''p1'' ''D1'' PunchIn 10" "session_of ann ''4321'' None" ann 10 "''p1''" PunchIn Pin]
   return_form_opens_on_punch_in [of "entry ''p1'' ''D1'' PunchIn 10" "(session_of ann ''4321'' (Some (entry ''p1'' ''D1'' PunchIn 10)))
             \<lparr>currentPunchLog := Some (entry ''p1'' ''D1'' PunchIn 10), showReturnForm := True\<rparr>" ann 11 "''p2''" PunchOut Pin]
  by (simp add: session_of_def handlePinPunch_def driver_pin_def truthy_def ann_def nextPunchType_def)

section \<open>Face verification\<close>

lemma binary32_not_NaN: "binary32 x \<noteq> NaN"
  by (simp add: binary32_def ieee_round_def Let_def)

lemma foldl_squares:
  "foldl (\<lambda>res diff. res + diff ^ 2) a xs = a + sum_list (map (\<lambda>diff. diff ^ 2) (xs :: real list))"
  by (induction xs arbitrary: a) simp_all

lemma sum_squares_nth:
  assumes "length xs = length ys"
  shows "sum_list (map (\<lambda>diff. diff ^ 2) (map2 (\<lambda>val other. val - other) xs ys))
           = (\<Sum>i<length xs. ((xs ! i - ys ! i) :: real) ^ 2)"
proof -
  let ?zs = "map (\<lambda>diff. diff ^ 2) (map2 (\<lambda>val other. val - other) xs ys)"
  have len: "length ?zs = length xs" using assms by simp
  have "sum_list ?zs = (\<Sum>i = 0..<length ?zs. ?zs ! i)" by (rule sum_list_sum_nth)
  also have "\<dots> = (\<Sum>i = 0..<length xs. (xs ! i - ys ! i) ^ 2)"
    using assms by (intro sum.cong) (simp_all)
  finally show ?thesis by (simp add: atLeast0LessThan)
qed

lemma map2_finite_part:
  "map2 (\<lambda>val other. val - finite_part other) xs (map Finite ys) = map2 (\<lambda>val other. val - other) xs ys"
  by (induction xs ys rule: list_induct2') (simp_all add: finite_part_def)

lemma euclideanDistance_finite:
  assumes "length xs = length ys"
  shows "euclideanDistance xs (map Finite ys) = Some (Finite (sqrt (\<Sum>i<length xs. (xs ! i - ys ! i) ^ 2)))"
proof -
  have "NaN \<notin> set (map Finite ys)" "PosInfinity \<notin> set (map Finite ys)" "NegInfinity \<notin> set (map Finite ys)"
    by auto
  then show ?thesis
    unfolding euclideanDistance_def foldl_squares map2_finite_part
    using assms sum_squares_nth [of xs ys] by simp
qed

lemma euclideanDistance_infinite:
  assumes "length xs = length ys" and "NaN \<notin> set ys" and "PosInfinity \<in> set ys \<or> NegInfinity \<in> set ys"
  shows "euclideanDistance xs ys = Some PosInfinity"
  using assms by (auto simp add: euclideanDistance_def)

lemma detectFace_compares:
  assumes "refsMounted v" and "isLoaded v" and "euclideanDistance live (Float32Array stored) = Some distance"
  shows "detectFace False (Some stored) (Detection live) v
           = (v\<lparr>isDetecting := False, status := (if js_less distance (Finite 0.4) then Verified else Failed)\<rparr>,
              [FaceVerified (js_less distance (Finite 0.4))])"
  using assms by (simp add: detectFace_def Let_def)

text \<open>
  Claim C2, as the code has it. In verification mode, with a detected face and a
  stored descriptor of the same length, \<open>detectFace\<close> measures the distance from the
  live vector to the stored vector rounded to single precision, and reports a
  match exactly when that distance is strictly below 0.4; a stored entry too large
  for single precision gives no match. When the stored entries are single
  precision values, the distance is that of the two vectors themselves: the
  report is a match, and the status \<open>verified\<close>, exactly when it is strictly below
  0.4; distance 0 matches, a distance from 0.4 upwards does not, and a live vector
  equal to the stored one matches.
\<close>

theorem face_match_single_precision:
  "length live = length stored \<and> refsMounted v \<and> isLoaded v \<longrightarrow>
     ((\<forall>x\<in>set stored. \<exists>y. binary32 x = Finite y) \<longrightarrow>
        snd (detectFace False (Some stored) (Detection live) v)
          = [FaceVerified (sqrt (\<Sum>i<length live. (live ! i - finite_part (binary32 (stored ! i))) ^ 2) < 0.4)])
     \<and> ((\<exists>x\<in>set stored. binary32 x = PosInfinity \<or> binary32 x = NegInfinity) \<longrightarrow>
        snd (detectFace False (Some stored) (Detection live) v) = [FaceVerified False])
     \<and> ((\<forall>x\<in>set stored. binary32 x = Finite x) \<longrightarrow>
        snd (detectFace False (Some stored) (Detection live) v)
          = [FaceVerified (sqrt (\<Sum>i<length live. (live ! i - stored ! i) ^ 2) < 0.4)]
        \<and> (status (fst (detectFace False (Some stored) (Detection live) v)) = Verified
             \<longleftrightarrow> sqrt (\<Sum>i<length live. (live ! i - stored ! i) ^ 2) < 0.4)
        \<and> (sqrt (\<Sum>i<length live. (live ! i - stored ! i) ^ 2) = 0 \<longrightarrow>
             snd (detectFace False (Some stored) (Detection live) v) = [FaceVerified True])
        \<and> (sqrt (\<Sum>i<length live. (live ! i - stored ! i) ^ 2) \<ge> 0.4 \<longrightarrow>
             snd (detectFace False (Some stored) (Detection live) v) = [FaceVerified False])
        \<and> snd (detectFace False (Some stored) (Detection stored) v) = [FaceVerified True])"
proof (intro impI)
  assume h: "length live = length stored \<and> refsMounted v \<and> isLoaded v"
  have rounded: "(\<forall>x\<in>set stored. \<exists>y. binary32 x = Finite y) \<longrightarrow>
        snd (detectFace False (Some stored) (Detection live) v)
          = [FaceVerified (sqrt (\<Sum>i<length live. (live ! i - finite_part (binary32 (stored ! i))) ^ 2) < 0.4)]"
  proof
    assume fin: "\<forall>x\<in>set stored. \<exists>y. binary32 x = Finite y"
    let ?ys = "map (\<lambda>x. finite_part (binary32 x)) stored"
    have "Float32Array stored = map Finite ?ys"
      using fin by (auto simp add: Float32Array_def finite_part_def)
    moreover have "length live = length ?ys" using h by simp
    ultimately have "euclideanDistance live (Float32Array stored)
        = Some (Finite (sqrt (\<Sum>i<length live. (live ! i - ?ys ! i) ^ 2)))"
      using euclideanDistance_finite [of live ?ys] by simp
    moreover have "(\<Sum>i<length live. (live ! i - ?ys ! i) ^ 2)
        = (\<Sum>i<length live. (live ! i - finite_part (binary32 (stored ! i))) ^ 2)"
      using h by (intro sum.cong) simp_all
    ultimately show "snd (detectFace False (Some stored) (Detection live) v)
          = [FaceVerified (sqrt (\<Sum>i<length live. (live ! i - finite_part (binary32 (stored ! i))) ^ 2) < 0.4)]"
      using h by (simp add: detectFace_compares)
  qed
  have overflow: "(\<exists>x\<in>set stored. binary32 x = PosInfinity \<or> binary32 x = NegInfinity) \<longrightarrow>
        snd (detectFace False (Some stored) (Detection live) v) = [FaceVerified False]"
  proof
    assume "\<exists>x\<in>set stored. binary32 x = PosInfinity \<or> binary32 x = NegInfinity"
    then have "PosInfinity \<in> set (Float32Array stored) \<or> NegInfinity \<in> set (Float32Array stored)"
      by (force simp add: Float32Array_def)
    moreover have "NaN \<notin> set (Float32Array stored)"
      using binary32_not_NaN by (auto simp add: Float32Array_def) metis
    moreover have "length live = length (Float32Array stored)"
      using h by (simp add: Float32Array_def)
    ultimately have "euclideanDistance live (Float32Array stored) = Some PosInfinity"
      by (intro euclideanDistance_infinite)
    then show "snd (detectFace False (Some stored) (Detection live) v) = [FaceVerified False]"
      using h by (simp add: detectFace_compares)
  qed
  have single: "(\<forall>x\<in>set stored. binary32 x = Finite x) \<longrightarrow>
        snd (detectFace False (Some stored) (Detection live) v)
          = [FaceVerified (sqrt (\<Sum>i<length live. (live ! i - stored ! i) ^ 2) < 0.4)]
        \<and> (status (fst (detectFace False (Some stored) (Detection live) v)) = Verified
             \<longleftrightarrow> sqrt (\<Sum>i<length live. (live ! i - stored ! i) ^ 2) < 0.4)
        \<and> (sqrt (\<Sum>i<length live. (live ! i - stored ! i) ^ 2) = 0 \<longrightarrow>
             snd (detectFace False (Some stored) (Detection live) v) = [FaceVerified True])
        \<and> (sqrt (\<Sum>i<length live. (live ! i - stored ! i) ^ 2) \<ge> 0.4 \<longrightarrow>
             snd (detectFace False (Some stored) (Detection live) v) = [FaceVerified False])
        \<and> snd (detectFace False (Some stored) (Detection stored) v) = [FaceVerified True]"
  proof
    assume sp: "\<forall>x\<in>set stored. binary32 x = Finite x"
    then have conv: "Float32Array stored = map Finite stored"
      by (simp add: Float32Array_def)
    have d: "euclideanDistance live (Float32Array stored)
        = Some (Finite (sqrt (\<Sum>i<length live. (live ! i - stored ! i) ^ 2)))"
      unfolding conv using h by (simp add: euclideanDistance_finite)
    have self: "euclideanDistance stored (Float32Array stored) = Some (Finite 0)"
      unfolding conv by (simp add: euclideanDistance_finite)
    show "snd (detectFace False (Some stored) (Detection live) v)
          = [FaceVerified (sqrt (\<Sum>i<length live. (live ! i - stored ! i) ^ 2) < 0.4)]
        \<and> (status (fst (detectFace False (Some stored) (Detection live) v)) = Verified
             \<longleftrightarrow> sqrt (\<Sum>i<length live. (live ! i - stored ! i) ^ 2) < 0.4)
        \<and> (sqrt (\<Sum>i<length live. (live ! i - stored ! i) ^ 2) = 0 \<longrightarrow>
             snd (detectFace False (Some stored) (Detection live) v) = [FaceVerified True])
        \<and> (sqrt (\<Sum>i<length live. (live ! i - stored ! i) ^ 2) \<ge> 0.4 \<longrightarrow>
             snd (detectFace False (Some stored) (Detection live) v) = [FaceVerified False])
        \<and> snd (detectFace False (Some stored) (Detection stored) v) = [FaceVerified True]"
      using h by (simp add: detectFace_compares [OF _ _ d] detectFace_compares [OF _ _ self])
  qed
  from rounded overflow single
  show "((\<forall>x\<in>set stored. \<exists>y. binary32 x = Finite y) \<longrightarrow>
        snd (detectFace False (Some stored) (Detection live) v)
          = [FaceVerified (sqrt (\<Sum>i<length live. (live ! i - finite_part (binary32 (stored ! i))) ^ 2) < 0.4)])
     \<and> ((\<exists>x\<in>set stored. binary32 x = PosInfinity \<or> binary32 x = NegInfinity) \<longrightarrow>
        snd (detectFace False (Some stored) (Detection live) v) = [FaceVerified False])
     \<and> ((\<forall>x\<in>set stored. binary32 x = Finite x) \<longrightarrow>
        snd (detectFace False (Some stored) (Detection live) v)
          = [FaceVerified (sqrt (\<Sum>i<length live. (live ! i - stored ! i) ^ 2) < 0.4)]
        \<and> (status (fst (detectFace False (Some stored) (Detection live) v)) = Verified
             \<longleftrightarrow> sqrt (\<Sum>i<length live. (live ! i - stored ! i) ^ 2) < 0.4)
        \<and> (sqrt (\<Sum>i<length live. (live ! i - stored ! i) ^ 2) = 0 \<longrightarrow>
             snd (detectFace False (Some stored) (Detection live) v) = [FaceVerified True])
        \<and> (sqrt (\<Sum>i<length live. (live ! i - stored ! i) ^ 2) \<ge> 0.4 \<longrightarrow>
             snd (detectFace False (Some stored) (Detection live) v) = [FaceVerified False])
        \<and> snd (detectFace False (Some stored) (Detection stored) v) = [FaceVerified True])"
    by blast
qed

lemma binary32_half: "binary32 (1 / 2) = Finite (1 / 2)"
  unfolding binary32_def
  by (subst ieee_round_at [of _ "- 1"]) (simp_all add: pow2_def round_half_even_def)

lemma binary32_zero: "binary32 0 = Finite 0"
  by (simp add: binary32_def ieee_round_def)

lemma binary32_near_threshold: "binary32 (429496729 / 1073741824) = Finite (13421773 / 33554432)"
  unfolding binary32_def
  by (subst ieee_round_at [of _ "- 2"]) (simp_all add: pow2_def round_half_even_def)

theorem face_match_single_precision_witness:
  "snd (detectFace False (Some [1 / 2, 0]) (Detection [1 / 4, 0])
      \<lparr>refsMounted = True, isLoaded = True, isDetecting = False, status = Idle\<rparr>) = [FaceVerified True]
   \<and> snd (detectFace False (Some [1 / 2, 0]) (Detection [1, 0])
      \<lparr>refsMounted = True, isLoaded = True, isDetecting = False, status = Idle\<rparr>) = [FaceVerified False]"
proof -
  have sp: "\<forall>x\<in>set [1 / 2, 0 :: real]. binary32 x = Finite x"
    by (simp add: binary32_half binary32_zero)
  have a: "sqrt ((1 / 4)\<^sup>2) = (1 / 4 :: real)" by simp
  have b: "sqrt ((1 / 2)\<^sup>2) = (1 / 2 :: real)" by simp
  have s2: "{..<(2::nat)} = {0, 1}" by auto
  have d1: "sqrt (\<Sum>i<length [1 / 4, 0 :: real]. ([1 / 4, 0] ! i - [1 / 2, 0 :: real] ! i)\<^sup>2) = 1 / 4"
    using a by (simp add: s2 power2_commute [of "1 / 4" "1 / 2"])
  have d2: "sqrt (\<Sum>i<length [1, 0 :: real]. ([1, 0] ! i - [1 / 2, 0 :: real] ! i)\<^sup>2) = 1 / 2"
    using b by (simp add: s2)
  show ?thesis
    using sp face_match_single_precision [of "[1 / 4, 0]" "[1 / 2, 0]"
        "\<lparr>refsMounted = True, isLoaded = True, isDetecting = False, status = Idle\<rparr>"]
      face_match_single_precision [of "[1, 0]" "[1 / 2, 0]"
        "\<lparr>refsMounted = True, isLoaded = True, isDetecting = False, status = Idle\<rparr>"]
    unfolding d1 d2 by simp
qed

text \<open>
  Claim C2 as stated fails for a stored entry that is a double but not a single
  precision value: the stored vector \<open>[429496729 / 2^30, 0]\<close> is at a distance below
  0.4 from the live vector \<open>[0, 0]\<close>, its rounding to single precision is not, and
  no match is reported.
\<close>

theorem near_threshold_not_matched:
  "sqrt (\<Sum>i<length [0, 0 :: real]. ([0, 0] ! i - [429496729 / 1073741824, 0 :: real] ! i)\<^sup>2) < 0.4
   \<and> snd (detectFace False (Some [429496729 / 1073741824, 0]) (Detection [0, 0])
      \<lparr>refsMounted = True, isLoaded = True, isDetecting = False, status = Idle\<rparr>) = [FaceVerified False]"
proof -
  have s2: "{..<(2::nat)} = {0, 1}" by auto
  have a: "sqrt ((429496729 / 1073741824)\<^sup>2) = (429496729 / 1073741824 :: real)" by simp
  have b: "sqrt ((13421773 / 33554432)\<^sup>2) = (13421773 / 33554432 :: real)" by simp
  have true_distance: "sqrt (\<Sum>i<length [0, 0 :: real]. ([0, 0] ! i - [429496729 / 1073741824, 0 :: real] ! i)\<^sup>2) < 0.4"
    using a by (simp add: s2)
  have "euclideanDistance [0, 0] (Float32Array [429496729 / 1073741824, 0])
          = Some (Finite (13421773 / 33554432))"
    using b by (simp add: Float32Array_def binary32_near_threshold binary32_zero
        euclideanDistance_def finite_part_def)
  then have "snd (detectFace False (Some [429496729 / 1073741824, 0]) (Detection [0, 0])
      \<lparr>refsMounted = True, isLoaded = True, isDetecting = False, status = Idle\<rparr>) = [FaceVerified False]"
    by (simp add: detectFace_compares)
  with true_distance show ?thesis by blast
qed

lemma detectFace_no_descriptor:
  "FaceVerified True \<notin> set (snd (detectFace isEnrolling None reply v))"
  by (simp add: detectFace_def split: detect_reply.splits)

lemma detectFace_no_descriptor_events:
  "snd (detectFace False None reply v) = [] \<or> snd (detectFace False None reply v) = [FaceVerified False]"
  by (simp add: detectFace_def split: detect_reply.splits)

text \<open>
  Claim C9. For a driver without a stored face descriptor, \<open>detectFace\<close> never
  calls \<open>onFaceVerified(true)\<close>, enrolling or not and whatever the capture gave;
  a face attempt in \<open>PunchInOut\<close> never shows \<open>verified\<close> and leaves the session,
  and with it the ledger, exactly as it was.
\<close>

theorem no_descriptor_no_face_punch:
  "driver s = Some d \<and> drv_faceDescriptor d = None \<longrightarrow>
     FaceVerified True \<notin> set (snd (detectFace isEnrolling (drv_faceDescriptor d) reply v))
     \<and> (status v \<noteq> Verified \<longrightarrow> status (fst (facePunchAttempt reply v now wr s)) \<noteq> Verified)
     \<and> snd (facePunchAttempt reply v now wr s) = s
     \<and> fs_punchLogs (db (snd (facePunchAttempt reply v now wr s))) = fs_punchLogs (db s)"
proof (intro impI)
  assume h: "driver s = Some d \<and> drv_faceDescriptor d = None"
  have ev: "FaceVerified True \<notin> set (snd (detectFace isEnrolling (drv_faceDescriptor d) reply v))"
    using h by (simp add: detectFace_no_descriptor)
  have same: "snd (facePunchAttempt reply v now wr s) = s"
    using h detectFace_no_descriptor_events [of reply v]
    by (auto simp add: facePunchAttempt_def handleFaceVerified_def split: prod.splits)
  show "FaceVerified True \<notin> set (snd (detectFace isEnrolling (drv_faceDescriptor d) reply v))
     \<and> (status v \<noteq> Verified \<longrightarrow> status (fst (facePunchAttempt reply v now wr s)) \<noteq> Verified)
     \<and> snd (facePunchAttempt reply v now wr s) = s
     \<and> fs_punchLogs (db (snd (facePunchAttempt reply v now wr s))) = fs_punchLogs (db s)"
    using ev same h
    by (simp add: facePunchAttempt_def detectFace_def split: prod.splits detect_reply.splits)
qed

theorem no_descriptor_no_face_punch_witness:
  "snd (facePunchAttempt (Detection [0, 0])
          \<lparr>refsMounted = True, isLoaded = True, isDetecting = False, status = Idle\<rparr>
          10 (Stored ''p1'') (session_of (ann\<lparr>drv_faceDescriptor := None\<rparr>) [] None))
     = session_of (ann\<lparr>drv_faceDescriptor := None\<rparr>) [] None
   \<and> fs_punchLogs (db (snd (facePunchAttempt (Detection [0, 0])
          \<lparr>refsMounted = True, isLoaded = True, isDetecting = False, status = Idle\<rparr>
          10 (Stored ''p1'') (session_of (ann\<lparr>drv_faceDescriptor := None\<rparr>) [] None)))) = []"
  using no_descriptor_no_face_punch [of "session_of (ann\<lparr>drv_faceDescriptor := None\<rparr>) [] None"
      "ann\<lparr>drv_faceDescriptor := None\<rparr>" False "Detection [0, 0]"
      "\<lparr>refsMounted = True, isLoaded = True, isDetecting = False, status = Idle\<rparr>" 10 "Stored ''p1''"]
  by (simp add: session_of_def ann_def empty_db_def)

section \<open>Return forms\<close>

lemma foldl_js_add_exact:
  "(\<forall>k\<le>length qs. binary64 (a + sum_list (take k qs)) = Finite (a + sum_list (take k qs))) \<Longrightarrow>
   foldl (\<lambda>sum q. js_add sum (Finite q)) (Finite a) qs = Finite (a + sum_list qs)"
proof (induction qs arbitrary: a)
  case Nil
  then show ?case by simp
next
  case (Cons q qs)
  have "binary64 (a + sum_list (take 1 (q # qs))) = Finite (a + sum_list (take 1 (q # qs)))"
    using Cons.prems by (metis One_nat_def Suc_leI length_greater_0_conv list.distinct(1))
  then have step: "js_add (Finite a) (Finite q) = Finite (a + q)" by simp
  have "\<forall>k\<le>length qs. binary64 (a + q + sum_list (take k qs)) = Finite (a + q + sum_list (take k qs))"
  proof (intro allI impI)
    fix k assume "k \<le> length qs"
    then have "Suc k \<le> length (q # qs)" by simp
    with Cons.prems have "binary64 (a + sum_list (take (Suc k) (q # qs))) = Finite (a + sum_list (take (Suc k) (q # qs)))"
      by blast
    then show "binary64 (a + q + sum_list (take k qs)) = Finite (a + q + sum_list (take k qs))"
      by (simp add: add.assoc)
  qed
  then have "foldl (\<lambda>sum q. js_add sum (Finite q)) (Finite (a + q)) qs = Finite (a + q + sum_list qs)"
    by (rule Cons.IH)
  with step show ?case by (simp add: add.assoc)
qed

lemma sum_list_Nats: "(\<forall>q\<in>set qs. q \<in> \<nat>) \<Longrightarrow> sum_list qs \<in> (\<nat> :: real set)"
  by (induction qs) simp_all

lemma sum_list_take_le:
  "(\<forall>q\<in>set qs. (0::real) \<le> q) \<Longrightarrow> sum_list (take k qs) \<le> sum_list qs"
proof -
  assume nn: "\<forall>q\<in>set qs. (0::real) \<le> q"
  have "sum_list qs = sum_list (take k qs) + sum_list (drop k qs)"
    by (metis append_take_drop_id sum_list_append)
  moreover have "0 \<le> sum_list (drop k qs)"
    using nn by (intro sum_list_nonneg) (meson in_set_dropD)
  ultimately show ?thesis by simp
qed

lemma binary64_Nats:
  assumes "x \<in> \<nat>" and "x \<le> 2 ^ 53"
  shows "binary64 x = Finite x"
proof -
  from assms(1) obtain n :: nat where n: "x = of_nat n" by (auto elim: Nats_cases)
  then have "real n \<le> 2 ^ 53" using assms(2) by simp
  then have "n \<le> 2 ^ 53" by (metis of_nat_le_iff of_nat_numeral of_nat_power)
  then have "\<bar>int n\<bar> \<le> 2 ^ 53" by (metis abs_of_nat of_nat_le_iff of_nat_numeral of_nat_power)
  then have "binary64 (of_int (int n)) = Finite (of_int (int n))" by (rule binary64_int)
  then show ?thesis by (simp add: n)
qed

lemma foldl_js_add_Nats:
  assumes "\<forall>q\<in>set qs. q \<in> \<nat>" and "sum_list qs \<le> 2 ^ 53"
  shows "foldl (\<lambda>sum q. js_add sum (Finite q)) (Finite 0) qs = Finite (sum_list qs)"
proof -
  have nn: "\<forall>q\<in>set qs. (0::real) \<le> q" using assms(1) by (metis Nats_cases of_nat_0_le_iff)
  have "\<forall>k\<le>length qs. binary64 (0 + sum_list (take k qs)) = Finite (0 + sum_list (take k qs))"
  proof (intro allI impI)
    fix k
    have "sum_list (take k qs) \<in> \<nat>"
      using assms(1) by (intro sum_list_Nats) (meson in_set_takeD)
    moreover have "sum_list (take k qs) \<le> 2 ^ 53"
      using sum_list_take_le [OF nn, of k] assms(2) by simp
    ultimately show "binary64 (0 + sum_list (take k qs)) = Finite (0 + sum_list (take k qs))"
      by (simp add: binary64_Nats)
  qed
  then show ?thesis using foldl_js_add_exact [of qs 0] by simp
qed

lemma onSubmit_stores:
  "fs_returnForms (db (onSubmit punchLog now (Stored i) items s))
     = fs_returnForms (db s) @
         [\<lparr>form_id = i, form_driverId = log_driverId punchLog, form_driverName = log_driverName punchLog,
           form_punchLogId = log_id punchLog, form_items = items,
           form_totalItems = foldl (\<lambda>sum q. js_add sum (Finite q)) (Finite 0) (map item_quantity items),
           form_submittedAt = now, form_status = Pending\<rparr>]"
  by (simp add: onSubmit_def createReturnForm_def handleFormSubmitted_def Let_def foldl_map)

lemma onSubmit_total:
  "form_totalItems (last (fs_returnForms (db (onSubmit punchLog now (Stored i) items s))))
     = foldl (\<lambda>sum q. js_add sum (Finite q)) (Finite 0) (map item_quantity items)"
  by (simp add: onSubmit_stores)

text \<open>
  Claim C4, as the code has it. The form that \<open>onSubmit\<close> stores for the items
  \<open>q1..qn\<close>, and shows as submitted, has as \<open>totalItems\<close> the double precision sum
  \<open>((0 + q1) + q2) + ... + qn\<close>, each addition rounded to the nearest double. It is
  the exact sum \<open>q1 + ... + qn\<close> whenever every partial sum is a double, and so
  whenever the quantities are whole numbers with a total of at most \<open>2^53\<close>. The
  total is computed from the item list alone, the same for any punch log, time,
  identifier and session, and the submission carries no aggregate of the caller.
\<close>

theorem totalItems_is_double_sum:
  "fs_returnForms (db (onSubmit punchLog now (Stored i) items s))
     = fs_returnForms (db s) @
         [\<lparr>form_id = i, form_driverId = log_driverId punchLog, form_driverName = log_driverName punchLog,
           form_punchLogId = log_id punchLog, form_items = items,
           form_totalItems = foldl (\<lambda>sum q. js_add sum (Finite q)) (Finite 0) (map item_quantity items),
           form_submittedAt = now, form_status = Pending\<rparr>]
   \<and> map_option form_totalItems (submittedForm (onSubmit punchLog now (Stored i) items s))
       = Some (foldl (\<lambda>sum q. js_add sum (Finite q)) (Finite 0) (map item_quantity items))
   \<and> ((\<forall>k\<le>length items. binary64 (sum_list (map item_quantity (take k items)))
                              = Finite (sum_list (map item_quantity (take k items)))) \<longrightarrow>
        form_totalItems (last (fs_returnForms (db (onSubmit punchLog now (Stored i) items s))))
          = Finite (sum_list (map item_quantity items)))
   \<and> ((\<forall>item\<in>set items. item_quantity item \<in> \<nat>) \<and> sum_list (map item_quantity items) \<le> 2 ^ 53 \<longrightarrow>
        form_totalItems (last (fs_returnForms (db (onSubmit punchLog now (Stored i) items s))))
          = Finite (sum_list (map item_quantity items)))
   \<and> form_totalItems (last (fs_returnForms (db (onSubmit punchLog now (Stored i) items s))))
       = form_totalItems (last (fs_returnForms (db (onSubmit punchLog' now' (Stored i') items s'))))"
proof -
  have shown: "map_option form_totalItems (submittedForm (onSubmit punchLog now (Stored i) items s))
       = Some (foldl (\<lambda>sum q. js_add sum (Finite q)) (Finite 0) (map item_quantity items))"
    by (simp add: onSubmit_def createReturnForm_def handleFormSubmitted_def Let_def foldl_map)
  have exact: "(\<forall>k\<le>length items. binary64 (sum_list (map item_quantity (take k items)))
                              = Finite (sum_list (map item_quantity (take k items)))) \<longrightarrow>
        form_totalItems (last (fs_returnForms (db (onSubmit punchLog now (Stored i) items s))))
          = Finite (sum_list (map item_quantity items))"
  proof
    assume h: "\<forall>k\<le>length items. binary64 (sum_list (map item_quantity (take k items)))
                              = Finite (sum_list (map item_quantity (take k items)))"
    have "\<forall>k\<le>length (map item_quantity items).
            binary64 (0 + sum_list (take k (map item_quantity items)))
              = Finite (0 + sum_list (take k (map item_quantity items)))"
      using h by (simp add: take_map)
    then have "foldl (\<lambda>sum q. js_add sum (Finite q)) (Finite 0) (map item_quantity items)
                 = Finite (0 + sum_list (map item_quantity items))"
      by (rule foldl_js_add_exact)
    then show "form_totalItems (last (fs_returnForms (db (onSubmit punchLog now (Stored i) items s))))
          = Finite (sum_list (map item_quantity items))"
      by (simp add: onSubmit_total)
  qed
  have whole: "(\<forall>item\<in>set items. item_quantity item \<in> \<nat>) \<and> sum_list (map item_quantity items) \<le> 2 ^ 53 \<longrightarrow>
        form_totalItems (last (fs_returnForms (db (onSubmit punchLog now (Stored i) items s))))
          = Finite (sum_list (map item_quantity items))"
  proof
    assume h: "(\<forall>item\<in>set items. item_quantity item \<in> \<nat>) \<and> sum_list (map item_quantity items) \<le> 2 ^ 53"
    then have "\<forall>q\<in>set (map item_quantity items). q \<in> \<nat>" by simp
    with h have "foldl (\<lambda>sum q. js_add sum (Finite q)) (Finite 0) (map item_quantity items)
                 = Finite (sum_list (map item_quantity items))"
      by (intro foldl_js_add_Nats) simp_all
    then show "form_totalItems (last (fs_returnForms (db (onSubmit punchLog now (Stored i) items s))))
          = Finite (sum_list (map item_quantity items))"
      by (simp add: onSubmit_total)
  qed
  have indep: "form_totalItems (last (fs_returnForms (db (onSubmit punchLog now (Stored i) items s))))
       = form_totalItems (last (fs_returnForms (db (onSubmit punchLog' now' (Stored i') items s'))))"
    by (simp add: onSubmit_total)
  from onSubmit_stores [of punchLog now i items s] shown exact whole indep show ?thesis by blast
qed

theorem totalItems_is_double_sum_witness:
  "form_totalItems (last (fs_returnForms (db (onSubmit (entry ''p1'' ''D1'' PunchIn 10) 12 (Stored ''f1'')
      [item_of ''crate'' 2, item_of ''pallet'' 1]
      (session_of ann [] (Some (entry ''p1'' ''D1'' PunchIn 10))))))) = Finite 3"
proof -
  have h: "(\<forall>item\<in>set [item_of ''crate'' 2, item_of ''pallet'' 1]. item_quantity item \<in> \<nat>)
      \<and> sum_list (map item_quantity [item_of ''crate'' 2, item_of ''pallet'' 1]) \<le> 2 ^ 53"
    by (simp add: item_of_def)
  have "form_totalItems (last (fs_returnForms (db (onSubmit (entry ''p1'' ''D1'' PunchIn 10) 12 (Stored ''f1'')
      [item_of ''crate'' 2, item_of ''pallet'' 1]
      (session_of ann [] (Some (entry ''p1'' ''D1'' PunchIn 10)))))))
     = Finite (sum_list (map item_quantity [item_of ''crate'' 2, item_of ''pallet'' 1]))"
    using h totalItems_is_double_sum [of "entry ''p1'' ''D1'' PunchIn 10" 12 "''f1''"
      "[item_of ''crate'' 2, item_of ''pallet'' 1]"
      "session_of ann [] (Some (entry ''p1'' ''D1'' PunchIn 10))"]
    by blast
  then show ?thesis by (simp add: item_of_def)
qed

lemma binary64_2_53: "binary64 (2 ^ 53) = Finite (2 ^ 53)"
  unfolding binary64_def
  by (subst ieee_round_at [of _ 53]) (simp_all add: pow2_def round_half_even_def)

lemma binary64_2_53_plus_1: "binary64 (2 ^ 53 + 1) = Finite (2 ^ 53)"
  unfolding binary64_def
  by (subst ieee_round_at [of _ 53]) (simp_all add: pow2_def round_half_even_def)

text \<open>
  Claim C4 as stated fails for the quantities \<open>2^53\<close> and 1, both accepted by the
  schema: their sum is \<open>2^53 + 1\<close>, and the stored total is \<open>2^53\<close>.
\<close>

theorem totalItems_not_exact_sum:
  "form_totalItems (last (fs_returnForms (db (onSubmit (entry ''p1'' ''D1'' PunchIn 10) 12 (Stored ''f1'')
      [item_of ''bolt'' 9007199254740992, item_of ''nut'' 1]
      (session_of ann [] (Some (entry ''p1'' ''D1'' PunchIn 10))))))) = Finite 9007199254740992
   \<and> sum_list (map item_quantity [item_of ''bolt'' 9007199254740992, item_of ''nut'' 1])
       = 9007199254740993"
  using binary64_2_53 binary64_2_53_plus_1 by (simp add: onSubmit_total item_of_def)

lemma item_issues_empty:
  "returnItemSchema_issues i r = [] \<longleftrightarrow>
     raw_itemName r \<noteq> [] \<and> 1 \<le> raw_quantity r \<and> raw_condition r \<in> {''good'', ''damaged'', ''missing''}"
  by (auto simp add: returnItemSchema_issues_def condition_enum_def)

lemma concat_map2_empty:
  "length is = length rs \<Longrightarrow>
   concat (map2 f is rs) = [] \<longleftrightarrow> (\<forall>k<length rs. f (is ! k) (rs ! k) = [])"
  by (auto simp add: set_zip in_set_conv_nth)

lemma in_set_zip_upt:
  "(a, b) \<in> set (zip [0 ..< length rs] rs) \<longleftrightarrow> a < length rs \<and> b = rs ! a"
proof
  assume "(a, b) \<in> set (zip [0 ..< length rs] rs)"
  then obtain n where "[0 ..< length rs] ! n = a" and "rs ! n = b" and "n < length rs"
    by (auto simp add: in_set_zip)
  then show "a < length rs \<and> b = rs ! a" by simp
next
  assume h: "a < length rs \<and> b = rs ! a"
  then have "[0 ..< length rs] ! a = a" by simp
  with h show "(a, b) \<in> set (zip [0 ..< length rs] rs)"
    by (auto simp add: in_set_zip intro!: exI [of _ a])
qed

lemma set_concat_indexed:
  "set (concat (map2 f [0 ..< length rs] rs)) = (\<Union>k<length rs. set (f k (rs ! k)))"
proof -
  have "set (concat (map2 f [0 ..< length rs] rs))
          = (\<Union>p\<in>set (zip [0 ..< length rs] rs). set (f (fst p) (snd p)))"
    by (auto simp add: case_prod_beta)
  also have "\<dots> = (\<Union>k<length rs. set (f k (rs ! k)))"
  proof (intro set_eqI iffI)
    fix x assume "x \<in> (\<Union>p\<in>set (zip [0 ..< length rs] rs). set (f (fst p) (snd p)))"
    then obtain a b where "(a, b) \<in> set (zip [0 ..< length rs] rs)" and "x \<in> set (f a b)"
      by auto
    then show "x \<in> (\<Union>k<length rs. set (f k (rs ! k)))"
      by (auto simp add: in_set_zip_upt)
  next
    fix x assume "x \<in> (\<Union>k<length rs. set (f k (rs ! k)))"
    then obtain k where "k < length rs" and "x \<in> set (f k (rs ! k))" by auto
    then have "(k, rs ! k) \<in> set (zip [0 ..< length rs] rs)" and "x \<in> set (f (fst (k, rs ! k)) (snd (k, rs ! k)))"
      by (simp_all add: in_set_zip_upt)
    then show "x \<in> (\<Union>p\<in>set (zip [0 ..< length rs] rs). set (f (fst p) (snd p)))"
      by blast
  qed
  finally show ?thesis .
qed

lemma schema_issue_set:
  "set (returnFormSchema_issues items)
     = (if items = [] then {ItemsRequired} else {})
       \<union> (\<Union>k<length items. set (returnItemSchema_issues k (items ! k)))"
  unfolding returnFormSchema_issues_def set_append set_concat_indexed by (cases items) simp_all

lemma item_issue_members:
  "NameRequired k \<in> set (returnItemSchema_issues j r) \<longleftrightarrow> k = j \<and> raw_itemName r = []"
  "QuantityTooSmall k \<in> set (returnItemSchema_issues j r) \<longleftrightarrow> k = j \<and> raw_quantity r < 1"
  "InvalidCondition k \<in> set (returnItemSchema_issues j r) \<longleftrightarrow>
     k = j \<and> raw_condition r \<notin> {''good'', ''damaged'', ''missing''}"
  "ItemsRequired \<notin> set (returnItemSchema_issues j r)"
  by (auto simp add: returnItemSchema_issues_def condition_enum_def)

lemma schema_issues_empty:
  "returnFormSchema_issues items = [] \<longleftrightarrow>
     items \<noteq> [] \<and> (\<forall>r\<in>set items. raw_itemName r \<noteq> [] \<and> 1 \<le> raw_quantity r
                        \<and> raw_condition r \<in> {''good'', ''damaged'', ''missing''})"
proof -
  have "concat (map2 returnItemSchema_issues [0 ..< length items] items) = [] \<longleftrightarrow>
      (\<forall>k<length items. returnItemSchema_issues ([0 ..< length items] ! k) (items ! k) = [])"
    by (rule concat_map2_empty) simp
  also have "\<dots> \<longleftrightarrow> (\<forall>k<length items. raw_itemName (items ! k) \<noteq> [] \<and> 1 \<le> raw_quantity (items ! k)
                        \<and> raw_condition (items ! k) \<in> {''good'', ''damaged'', ''missing''})"
    by (simp only: item_issues_empty)
  also have "\<dots> \<longleftrightarrow> (\<forall>r\<in>set items. raw_itemName r \<noteq> [] \<and> 1 \<le> raw_quantity r
                        \<and> raw_condition r \<in> {''good'', ''damaged'', ''missing''})"
    by (simp only: all_set_conv_all_nth)
  finally have items: "concat (map2 returnItemSchema_issues [0 ..< length items] items) = [] \<longleftrightarrow>
     (\<forall>r\<in>set items. raw_itemName r \<noteq> [] \<and> 1 \<le> raw_quantity r
                        \<and> raw_condition r \<in> {''good'', ''damaged'', ''missing''})" .
  have "returnFormSchema_issues items = []
      \<longleftrightarrow> items \<noteq> [] \<and> concat (map2 returnItemSchema_issues [0 ..< length items] items) = []"
    by (cases items) (simp_all add: returnFormSchema_issues_def)
  then show ?thesis using items by simp
qed

text \<open>
  Claim C6. The schema accepts a submission, returning its items, exactly when it
  has at least one item and every item has a non-empty name, a quantity of at
  least 1 and a condition among \<open>good\<close>, \<open>damaged\<close>, \<open>missing\<close>; the notes play no
  part. Every other submission is rejected: the schema returns a non-empty list of
  issues and \<open>handleSubmit\<close> stops with them, without calling \<open>onSubmit\<close>. The issues
  are one for an empty item list, and one for each item with an empty name, each
  item with a quantity below 1 and each item with a condition outside the three,
  and no others.
\<close>

theorem returnFormSchema_accepts_iff:
  "(returnFormSchema items = Inr (map parsed_item items) \<longleftrightarrow>
      items \<noteq> [] \<and> (\<forall>r\<in>set items. raw_itemName r \<noteq> [] \<and> 1 \<le> raw_quantity r
                         \<and> raw_condition r \<in> {''good'', ''damaged'', ''missing''}))
   \<and> (\<not> (items \<noteq> [] \<and> (\<forall>r\<in>set items. raw_itemName r \<noteq> [] \<and> 1 \<le> raw_quantity r
                         \<and> raw_condition r \<in> {''good'', ''damaged'', ''missing''})) \<longrightarrow>
        returnFormSchema items = Inl (returnFormSchema_issues items)
        \<and> returnFormSchema_issues items \<noteq> []
        \<and> handleSubmit punchLog now reply items s = Inl (returnFormSchema_issues items))
   \<and> (ItemsRequired \<in> set (returnFormSchema_issues items) \<longleftrightarrow> items = [])
   \<and> (NameRequired k \<in> set (returnFormSchema_issues items)
        \<longleftrightarrow> k < length items \<and> raw_itemName (items ! k) = [])
   \<and> (QuantityTooSmall k \<in> set (returnFormSchema_issues items)
        \<longleftrightarrow> k < length items \<and> raw_quantity (items ! k) < 1)
   \<and> (InvalidCondition k \<in> set (returnFormSchema_issues items)
        \<longleftrightarrow> k < length items \<and> raw_condition (items ! k) \<notin> {''good'', ''damaged'', ''missing''})"
proof -
  let ?ok = "items \<noteq> [] \<and> (\<forall>r\<in>set items. raw_itemName r \<noteq> [] \<and> 1 \<le> raw_quantity r
                         \<and> raw_condition r \<in> {''good'', ''damaged'', ''missing''})"
  have accept: "returnFormSchema items = Inr (map parsed_item items) \<longleftrightarrow> ?ok"
    using schema_issues_empty [of items] by (simp add: returnFormSchema_def)
  have reject: "\<not> ?ok \<longrightarrow>
        returnFormSchema items = Inl (returnFormSchema_issues items)
        \<and> returnFormSchema_issues items \<noteq> []
        \<and> handleSubmit punchLog now reply items s = Inl (returnFormSchema_issues items)"
    using schema_issues_empty [of items] by (simp add: returnFormSchema_def handleSubmit_def)
  have none: "ItemsRequired \<in> set (returnFormSchema_issues items) \<longleftrightarrow> items = []"
    by (simp add: schema_issue_set item_issue_members)
  have name: "NameRequired k \<in> set (returnFormSchema_issues items)
        \<longleftrightarrow> k < length items \<and> raw_itemName (items ! k) = []"
    by (auto simp add: schema_issue_set item_issue_members)
  have qty: "QuantityTooSmall k \<in> set (returnFormSchema_issues items)
        \<longleftrightarrow> k < length items \<and> raw_quantity (items ! k) < 1"
    by (auto simp add: schema_issue_set item_issue_members)
  have cond: "InvalidCondition k \<in> set (returnFormSchema_issues items)
        \<longleftrightarrow> k < length items \<and> raw_condition (items ! k) \<notin> {''good'', ''damaged'', ''missing''}"
    by (auto simp add: schema_issue_set item_issue_members)
  from accept reject none name qty cond show ?thesis by blast
qed

theorem returnFormSchema_accepts_iff_witness:
  "returnFormSchema [crate, crate\<lparr>raw_notes := Some ''dented''\<rparr>]
     = Inr (map parsed_item [crate, crate\<lparr>raw_notes := Some ''dented''\<rparr>])
   \<and> returnFormSchema [] = Inl [ItemsRequired]
   \<and> returnFormSchema [crate, crate\<lparr>raw_quantity := 0\<rparr>] = Inl [QuantityTooSmall 1]
   \<and> returnFormSchema [crate\<lparr>raw_itemName := []\<rparr>] = Inl [NameRequired 0]
   \<and> returnFormSchema [crate\<lparr>raw_condition := ''broken''\<rparr>, crate] = Inl [InvalidCondition 0]"
  using returnFormSchema_accepts_iff [of "[crate, crate\<lparr>raw_notes := Some ''dented''\<rparr>]"]
    returnFormSchema_accepts_iff [of "[]"]
    returnFormSchema_accepts_iff [of "[crate, crate\<lparr>raw_quantity := 0\<rparr>]"]
    returnFormSchema_accepts_iff [of "[crate\<lparr>raw_itemName := []\<rparr>]"]
    returnFormSchema_accepts_iff [of "[crate\<lparr>raw_condition := ''broken''\<rparr>, crate]"]
  by (simp add: crate_def returnFormSchema_issues_def returnItemSchema_issues_def condition_enum_def
      upt_rec [of 0] upt_rec [of 1])

section \<open>Driver directory lookup\<close>

lemma filter_first_match:
  assumes "xs = pre @ u # post" and "\<forall>w\<in>set pre. \<not> P w" and "P u"
  shows "filter P xs = u # filter P post"
  using assms by (simp add: filter_empty_conv)

text \<open>
  Claim C3, as the code has it. The lookup answers from the collection \<open>users\<close>:
  \<open>null\<close> when the read fails or no user document has the given \<open>driverId\<close> and the
  role \<open>driver\<close>; otherwise the first such document, as its name under \<open>id\<close> together
  with exactly the fields stored in it, so that every field other than \<open>id\<close> is
  present in the result exactly when that user document stores it. The collection
  \<open>drivers\<close> has no influence on the answer.
\<close>

theorem getDriverByDriverId_reads_users:
  "getDriverByDriverId Throws store k = None
   \<and> ((\<forall>u\<in>set (fs_users store). \<not> (doc_data u ''driverId'' = Some (JString k)
                                    \<and> doc_data u ''role'' = Some (JString ''driver''))) \<longrightarrow>
        getDriverByDriverId reply store k = None)
   \<and> (fs_users store = pre @ u # post
        \<and> (\<forall>w\<in>set pre. \<not> (doc_data w ''driverId'' = Some (JString k)
                             \<and> doc_data w ''role'' = Some (JString ''driver'')))
        \<and> doc_data u ''driverId'' = Some (JString k) \<and> doc_data u ''role'' = Some (JString ''driver'') \<longrightarrow>
        getDriverByDriverId Succeeds store k = Some ([''id'' \<mapsto> JString (doc_id u)] ++ doc_data u)
        \<and> (\<forall>field. field \<noteq> ''id'' \<longrightarrow>
              the (getDriverByDriverId Succeeds store k) field = doc_data u field))
   \<and> getDriverByDriverId reply (store\<lparr>fs_drivers := ds\<rparr>) k = getDriverByDriverId reply store k"
proof -
  let ?P = "\<lambda>u. doc_data u ''driverId'' = Some (JString k) \<and> doc_data u ''role'' = Some (JString ''driver'')"
  have fails: "getDriverByDriverId Throws store k = None"
    by (simp add: getDriverByDriverId_def)
  have nomatch: "(\<forall>u\<in>set (fs_users store). \<not> ?P u) \<longrightarrow> getDriverByDriverId reply store k = None"
  proof
    assume "\<forall>u\<in>set (fs_users store). \<not> ?P u"
    then have "filter ?P (fs_users store) = []" by (simp add: filter_empty_conv)
    then show "getDriverByDriverId reply store k = None"
      by (simp add: getDriverByDriverId_def split: io.splits)
  qed
  have first: "fs_users store = pre @ u # post \<and> (\<forall>w\<in>set pre. \<not> ?P w) \<and> ?P u \<longrightarrow>
        getDriverByDriverId Succeeds store k = Some ([''id'' \<mapsto> JString (doc_id u)] ++ doc_data u)
        \<and> (\<forall>field. field \<noteq> ''id'' \<longrightarrow>
              the (getDriverByDriverId Succeeds store k) field = doc_data u field)"
  proof
    assume h: "fs_users store = pre @ u # post \<and> (\<forall>w\<in>set pre. \<not> ?P w) \<and> ?P u"
    then have "filter ?P (fs_users store) = u # filter ?P post"
      using filter_first_match [of "fs_users store" pre u post ?P] by blast
    then have res: "getDriverByDriverId Succeeds store k = Some ([''id'' \<mapsto> JString (doc_id u)] ++ doc_data u)"
      by (simp add: getDriverByDriverId_def)
    then show "getDriverByDriverId Succeeds store k = Some ([''id'' \<mapsto> JString (doc_id u)] ++ doc_data u)
        \<and> (\<forall>field. field \<noteq> ''id'' \<longrightarrow>
              the (getDriverByDriverId Succeeds store k) field = doc_data u field)"
      by (simp add: map_add_def split: option.splits)
  qed
  have frame: "getDriverByDriverId reply (store\<lparr>fs_drivers := ds\<rparr>) k = getDriverByDriverId reply store k"
    by (cases reply) (simp_all add: getDriverByDriverId_def)
  from fails nomatch first frame show ?thesis by blast
qed

theorem getDriverByDriverId_reads_users_witness:
  "the (getDriverByDriverId Succeeds signup_db ''D1'') ''email'' = Some (JString ''ann@example.org'')
   \<and> getDriverByDriverId Succeeds signup_db ''D2'' = None"
  using getDriverByDriverId_reads_users [of signup_db "''D1''" Succeeds "[]" "hd (fs_users signup_db)" "[]" "fs_drivers signup_db"]
    getDriverByDriverId_reads_users [of signup_db "''D2''" Succeeds "[]" "hd (fs_users signup_db)" "[]" "fs_drivers signup_db"]
  by (simp add: signup_db_def)

text \<open>
  Claim C3 as stated fails on a store where the driver D1 has a profile with name,
  PIN and face descriptor in \<open>drivers\<close> and the account that sign-up wrote in
  \<open>users\<close>: the lookup returns the account, with no name, PIN or face descriptor;
  and without the account it returns \<open>null\<close> although the driver exists.
\<close>

theorem driver_profile_not_returned:
  "doc_data (hd (fs_drivers signup_db)) ''driverId'' = Some (JString ''D1'')
   \<and> doc_data (hd (fs_drivers signup_db)) ''pin'' = Some (JString ''4321'')
   \<and> getDriverByDriverId Succeeds signup_db ''D1'' \<noteq> None
   \<and> the (getDriverByDriverId Succeeds signup_db ''D1'') ''name'' = None
   \<and> the (getDriverByDriverId Succeeds signup_db ''D1'') ''pin'' = None
   \<and> the (getDriverByDriverId Succeeds signup_db ''D1'') ''faceDescriptor'' = None
   \<and> getDriverByDriverId Succeeds (signup_db\<lparr>fs_users := []\<rparr>) ''D1'' = None"
  by (simp add: getDriverByDriverId_def signup_db_def)

section \<open>Admin decisions\<close>

lemma merge_status_only:
  "merge_fields (no_updates\<lparr>upd_status := Some x\<rparr>) g = g\<lparr>form_status := x\<rparr>"
  by (simp add: merge_fields_def no_updates_def)

text \<open>
  Claim C5. For a form held by the store under the given identifier, whatever its
  current status, \<open>updateFormStatus\<close> with \<open>approved\<close> or \<open>rejected\<close> goes through and
  sets the status of that form, in the store and in the dashboard's list, to the
  target; every other field of the form, every other form and every other
  collection is as before. A form already decided is overwritten.
\<close>

theorem updateFormStatus_changes_status_only:
  "f \<in> set (fs_returnForms store) \<and> form_id f = formId \<longrightarrow>
     updateFormStatus Succeeds formId st (store, shown)
       = (store\<lparr>fs_returnForms :=
               map (\<lambda>g. if form_id g = formId then g\<lparr>form_status := decided st\<rparr> else g)
                 (fs_returnForms store)\<rparr>,
          map (\<lambda>g. if form_id g = formId then g\<lparr>form_status := decided st\<rparr> else g) shown)
     \<and> f\<lparr>form_status := decided st\<rparr> \<in> set (fs_returnForms (fst (updateFormStatus Succeeds formId st (store, shown))))"
proof
  assume h: "f \<in> set (fs_returnForms store) \<and> form_id f = formId"
  then have "formId \<in> set (map form_id (fs_returnForms store))" by auto
  then have eq: "updateFormStatus Succeeds formId st (store, shown)
       = (store\<lparr>fs_returnForms :=
               map (\<lambda>g. if form_id g = formId then g\<lparr>form_status := decided st\<rparr> else g)
                 (fs_returnForms store)\<rparr>,
          map (\<lambda>g. if form_id g = formId then g\<lparr>form_status := decided st\<rparr> else g) shown)"
    by (simp add: updateFormStatus_def updateReturnForm_def merge_status_only)
  have "f\<lparr>form_status := decided st\<rparr> \<in> set (map (\<lambda>g. if form_id g = formId then g\<lparr>form_status := decided st\<rparr> else g)
                 (fs_returnForms store))"
    using h by force
  with eq show "updateFormStatus Succeeds formId st (store, shown)
       = (store\<lparr>fs_returnForms :=
               map (\<lambda>g. if form_id g = formId then g\<lparr>form_status := decided st\<rparr> else g)
                 (fs_returnForms store)\<rparr>,
          map (\<lambda>g. if form_id g = formId then g\<lparr>form_status := decided st\<rparr> else g) shown)
     \<and> f\<lparr>form_status := decided st\<rparr> \<in> set (fs_returnForms (fst (updateFormStatus Succeeds formId st (store, shown))))"
    by simp
qed

theorem updateFormStatus_changes_status_only_witness:
  "updateFormStatus Succeeds ''f1'' rejected
      (empty_db\<lparr>fs_returnForms := [decided_form, decided_form\<lparr>form_id := ''f2''\<rparr>]\<rparr>, [decided_form])
     = (empty_db\<lparr>fs_returnForms := [decided_form\<lparr>form_status := Rejected\<rparr>, decided_form\<lparr>form_id := ''f2''\<rparr>]\<rparr>,
        [decided_form\<lparr>form_status := Rejected\<rparr>])
   \<and> updateFormStatus Succeeds ''f1'' approved
      (empty_db\<lparr>fs_returnForms := [decided_form]\<rparr>, [decided_form])
     = (empty_db\<lparr>fs_returnForms := [decided_form]\<rparr>, [decided_form])"
  using updateFormStatus_changes_status_only [of decided_form
      "empty_db\<lparr>fs_returnForms := [decided_form, decided_form\<lparr>form_id := ''f2''\<rparr>]\<rparr>" "''f1''" rejected "[decided_form]"]
    updateFormStatus_changes_status_only [of decided_form
      "empty_db\<lparr>fs_returnForms := [decided_form]\<rparr>" "''f1''" approved "[decided_form]"]
  by (simp add: decided_form_def empty_db_def)

end
